theory Spec2Isabelle
  imports Complex_Main "HOL-Library.Word" "HOL-Library.Monad_Syntax"
begin

chapter \<open>The audio mixer core: ring buffer, gap tracker, eligibility gate and mixing\<close>

text \<open>
  The embedding follows two source files: \<^verbatim>\<open>audio-mixer/src/main.cpp\<close> (the mixer loop and
  the saturating addition) and \<^verbatim>\<open>AudioRingBuffer.cpp\<close> (the gap tracker and the ring buffer).
  Part I holds the definitions, one per source function, in source order; Part II holds the
  theorems.

  Conventions.
  \<^item> A sample is an \<^verbatim>\<open>int16_t\<close>, modelled as a 16-bit word; \<^verbatim>\<open>int\<close> and \<^verbatim>\<open>long\<close> values that
    cannot overflow in the expression at hand are mathematical integers.
  \<^item> A pointer into a sample array is an address counted in samples; address 0 is \<^verbatim>\<open>NULL\<close>.
    The block an object owns is kept beside its base address as a list, and every access
    through a pointer is checked against the block: an access outside it yields \<open>None\<close>.
  \<^item> \<^verbatim>\<open>float\<close> values are modelled as real numbers (rounding of the floating-point
    operations is not modelled); the conversion of a \<^verbatim>\<open>float\<close> to an integer type is the
    truncation towards zero that C++ performs.
\<close>

section \<open>Part I: the embedding\<close>

subsection \<open>Integer and floating-point conversions of C++\<close>

type_synonym sample = "16 word"

text \<open>Conversion to \<^verbatim>\<open>unsigned int\<close>, \<^verbatim>\<open>unsigned long\<close> (64 bit) and \<^verbatim>\<open>int\<close>.\<close>

definition u32 :: "int \<Rightarrow> int" where
  "u32 x = x mod 2 ^ 32"

definition u64 :: "int \<Rightarrow> int" where
  "u64 x = x mod 2 ^ 64"

definition s32 :: "int \<Rightarrow> int" where
  "s32 x = (x + 2 ^ 31) mod 2 ^ 32 - 2 ^ 31"

definition s64 :: "int \<Rightarrow> int" where
  "s64 x = (x + 2 ^ 63) mod 2 ^ 64 - 2 ^ 63"

text \<open>\<^verbatim>\<open>sizeof(int16_t)\<close>.\<close>

definition sizeof_int16 :: int where
  "sizeof_int16 = 2"

text \<open>A \<^verbatim>\<open>float\<close> converted to \<^verbatim>\<open>int\<close>: the fractional part is discarded.\<close>

definition float_to_int :: "real \<Rightarrow> int" where
  "float_to_int x = (if 0 \<le> x then \<lfloor>x\<rfloor> else \<lceil>x\<rceil>)"

text \<open>A \<^verbatim>\<open>float\<close> (or \<^verbatim>\<open>long\<close>) stored into an \<^verbatim>\<open>int16_t\<close>.\<close>

definition float_to_int16 :: "real \<Rightarrow> sample" where
  "float_to_int16 x = word_of_int (float_to_int x)"

subsection \<open>main.cpp: constants\<close>

definition SAMPLE_RATE :: real where
  "SAMPLE_RATE = 22050"

definition JITTER_BUFFER_MSECS :: int where
  "JITTER_BUFFER_MSECS = 12"

definition JITTER_BUFFER_SAMPLES :: int where
  "JITTER_BUFFER_SAMPLES = float_to_int (real_of_int JITTER_BUFFER_MSECS * (SAMPLE_RATE / 1000))"

definition BUFFER_LENGTH_BYTES :: int where
  "BUFFER_LENGTH_BYTES = 1024"

definition BUFFER_LENGTH_SAMPLES_PER_CHANNEL :: int where
  "BUFFER_LENGTH_SAMPLES_PER_CHANNEL = (BUFFER_LENGTH_BYTES div 2) div sizeof_int16"

definition RING_BUFFER_FRAMES :: int where
  "RING_BUFFER_FRAMES = 10"

definition RING_BUFFER_SAMPLES :: int where
  "RING_BUFFER_SAMPLES = RING_BUFFER_FRAMES * BUFFER_LENGTH_SAMPLES_PER_CHANNEL"

definition MAX_SAMPLE_VALUE :: int where
  "MAX_SAMPLE_VALUE = 2 ^ 15 - 1"

definition MIN_SAMPLE_VALUE :: int where
  "MIN_SAMPLE_VALUE = - (2 ^ 15)"

definition DISTANCE_RATIO :: real where
  "DISTANCE_RATIO = 3 / 0.3"

definition PHASE_AMPLITUDE_RATIO_AT_90 :: real where
  "PHASE_AMPLITUDE_RATIO_AT_90 = 0.5"

definition PHASE_DELAY_AT_90 :: int where
  "PHASE_DELAY_AT_90 = 20"

definition MAX_OFF_AXIS_ATTENUATION :: real where
  "MAX_OFF_AXIS_ATTENUATION = 0.2"

definition OFF_AXIS_ATTENUATION_FORMULA_STEP :: real where
  "OFF_AXIS_ATTENUATION_FORMULA_STEP = (1 - MAX_OFF_AXIS_ATTENUATION) / 2"

subsection \<open>main.cpp: plateauAdditionOfSamples\<close>

text \<open>
  The function updates \<^verbatim>\<open>mixSample\<close> through a reference; the model returns the new value.
  The sum is a \<^verbatim>\<open>long\<close>. The first assignment to \<^verbatim>\<open>normalizedSample\<close> is overwritten by the
  second, which is again computed from \<^verbatim>\<open>sumSample\<close>; the final assignment narrows the
  \<^verbatim>\<open>long\<close> to 16 bits, keeping the value modulo \<open>2 ^ 16\<close> as the compilers in use do.
\<close>

definition plateauAdditionOfSamples :: "sample \<Rightarrow> sample \<Rightarrow> sample" where
  "plateauAdditionOfSamples mixSample sampleToAdd =
     (let sumSample = sint sampleToAdd + sint mixSample;
          normalizedSample = min MAX_SAMPLE_VALUE sumSample;
          normalizedSample = max MIN_SAMPLE_VALUE sumSample
      in word_of_int normalizedSample)"

text \<open>The saturating addition in the words of the specification, for comparison.\<close>

definition saturating_add_spec :: "sample \<Rightarrow> sample \<Rightarrow> int" where
  "saturating_add_spec mix add =
     max MIN_SAMPLE_VALUE (min MAX_SAMPLE_VALUE (sint mix + sint add))"

subsection \<open>main.cpp: the per-agent buffer the mixer works on\<close>

text \<open>
  The mixer of \<^verbatim>\<open>main.cpp\<close> reaches each agent's buffer through accessors of a class whose
  declaration is not part of the sources at hand. The record has one field per accessor the
  mixer calls, under the accessor's name; \<open>ringSamples\<close> is the block of samples at
  \<open>getBuffer\<close>, constructed with \<open>RING_BUFFER_SAMPLES\<close> samples.
\<close>

record MixerRingBuffer =
  getBuffer :: int
  ringSamples :: "sample list"
  getNextOutput :: int
  getEndOfLastWrite :: int
  isStarted :: bool
  shouldBeAddedToMix :: bool
  shouldLoopbackForAgent :: bool
  getPosition :: "real \<times> real \<times> real"
  getBearing :: real
  getAttenuationRatio :: real

datatype agent_type = AGENT_TYPE_AVATAR | AGENT_TYPE_AUDIO_INJECTOR | AGENT_TYPE_AUDIO_MIXER

record Agent =
  getType :: agent_type
  getLinkedData :: MixerRingBuffer

text \<open>
  Modelled from the spec: \<^verbatim>\<open>diffLastWriteNextOutput\<close> is a member of that class, and its body
  is missing. The specification calls it the current \<open>available\<close>, the distance from the read
  cursor to the write cursor modulo the capacity of the ring.
\<close>

definition diffLastWriteNextOutput :: "MixerRingBuffer \<Rightarrow> int" where
  "diffLastWriteNextOutput b = (getEndOfLastWrite b - getNextOutput b) mod RING_BUFFER_SAMPLES"

subsection \<open>main.cpp: the eligibility loop (lines 111 to 129)\<close>

text \<open>The body of the loop, for one agent's buffer; the log lines are left out.\<close>

definition checkAgentBuffer :: "MixerRingBuffer \<Rightarrow> MixerRingBuffer" where
  "checkAgentBuffer agentBuffer =
     (if getEndOfLastWrite agentBuffer \<noteq> 0 then
        (if \<not> isStarted agentBuffer
            \<and> diffLastWriteNextOutput agentBuffer
                \<le> BUFFER_LENGTH_SAMPLES_PER_CHANNEL + JITTER_BUFFER_SAMPLES
         then agentBuffer\<lparr>shouldBeAddedToMix := False\<rparr>
         else if diffLastWriteNextOutput agentBuffer < BUFFER_LENGTH_SAMPLES_PER_CHANNEL
         then agentBuffer\<lparr>isStarted := False, shouldBeAddedToMix := False\<rparr>
         else agentBuffer\<lparr>isStarted := True, shouldBeAddedToMix := True\<rparr>)
      else agentBuffer)"

definition checkAgents :: "Agent list \<Rightarrow> Agent list" where
  "checkAgents agentList =
     map (\<lambda>agent. agent\<lparr>getLinkedData := checkAgentBuffer (getLinkedData agent)\<rparr>) agentList"

subsection \<open>main.cpp: spatialization (lines 148 to 224)\<close>

text \<open>
  The values the mixer computes for one listener and one source before it mixes the frame.
  \<open>bearingRelativeAngleToSource\<close> is in radians when the channels are chosen.
\<close>

record spatial =
  bearingRelativeAngleToSource :: real
  attenuationCoefficient :: real
  numSamplesDelay :: int
  weakChannelAmplitudeRatio :: real

text \<open>
  The distance coefficient of one pair of agents, \<^verbatim>\<open>std::min(1.0f, powf(0.5,
  (logf(DISTANCE_RATIO * distanceToAgent) / logf(3)) - 1))\<close>. At distance 0 the logarithm is
  minus infinity and the power is plus infinity in floating point, so the minimum is 1.
\<close>

definition distanceCoefficient :: "real \<Rightarrow> real" where
  "distanceCoefficient distanceToAgent =
     (if distanceToAgent = 0 then 1
      else min 1 (0.5 powr ((ln (DISTANCE_RATIO * distanceToAgent) / ln 3) - 1)))"

text \<open>\<^verbatim>\<open>atan2f\<close> on the two non-negative arguments the mixer passes.\<close>

definition atan2f_nonneg :: "real \<Rightarrow> real \<Rightarrow> real" where
  "atan2f_nonneg y x = (if x = 0 then (if y = 0 then 0 else pi / 2) else arctan (y / x))"

text \<open>The wrap of an angle in degrees that the mixer applies twice.\<close>

definition wrapAngle :: "real \<Rightarrow> real" where
  "wrapAngle a = (if a > 180 then a - 360 else if a < - 180 then a + 360 else a)"

text \<open>
  The sine ratio, the inter-aural delay and the weak channel's amplitude ratio, from the
  relative bearing in degrees (lines 219 to 223). \<^verbatim>\<open>numSamplesDelay\<close> is an \<^verbatim>\<open>int\<close> assigned
  from the \<^verbatim>\<open>float\<close> product.
\<close>

definition sinRatio :: "real \<Rightarrow> real" where
  "sinRatio bearingDegrees = \<bar>sin (bearingDegrees * (pi / 180))\<bar>"

definition numSamplesDelay_of :: "real \<Rightarrow> int" where
  "numSamplesDelay_of bearingDegrees =
     float_to_int (real_of_int PHASE_DELAY_AT_90 * sinRatio bearingDegrees)"

definition weakChannelAmplitudeRatio_of :: "real \<Rightarrow> real" where
  "weakChannelAmplitudeRatio_of bearingDegrees =
     1 - (PHASE_AMPLITUDE_RATIO_AT_90 * sinRatio bearingDegrees)"

text \<open>
  The values for a source that is the listener itself: the initial values of the four
  variables.
\<close>

definition spatial_self :: spatial where
  "spatial_self =
     \<lparr>bearingRelativeAngleToSource = 0, attenuationCoefficient = 1,
      numSamplesDelay = 0, weakChannelAmplitudeRatio = 1\<rparr>"

text \<open>
  The values for a source other than the listener. The matrix \<^verbatim>\<open>distanceCoefficients\<close>
  caches the coefficient of a pair within one frame; the cached value is the value computed
  here, since the positions do not change while a frame is mixed.
\<close>

definition spatialize :: "MixerRingBuffer \<Rightarrow> MixerRingBuffer \<Rightarrow> spatial" where
  "spatialize agentRingBuffer otherAgentBuffer =
     (let (ax, ay, az) = getPosition agentRingBuffer;
          (ox, oy, oz) = getPosition otherAgentBuffer;
          distanceToAgent = sqrt ((ax - ox)\<^sup>2 + (ay - oy)\<^sup>2 + (az - oz)\<^sup>2);
          minCoefficient = distanceCoefficient distanceToAgent;
          triangleAngle = atan2f_nonneg \<bar>az - oz\<bar> \<bar>ax - ox\<bar> * (180 / pi);
          absoluteAngleToSource =
            (if ox > ax
             then (if oz > az then - 90 + triangleAngle else - 90 - triangleAngle)
             else (if oz > az then 90 - triangleAngle else 90 + triangleAngle));
          bearingDegrees = wrapAngle (absoluteAngleToSource - getBearing agentRingBuffer);
          angleOfDelivery = wrapAngle (absoluteAngleToSource - getBearing otherAgentBuffer);
          offAxisCoefficient = MAX_OFF_AXIS_ATTENUATION
            + (OFF_AXIS_ATTENUATION_FORMULA_STEP * (\<bar>angleOfDelivery\<bar> / 90))
      in \<lparr>bearingRelativeAngleToSource = bearingDegrees * (pi / 180),
          attenuationCoefficient =
            minCoefficient * getAttenuationRatio otherAgentBuffer * offAxisCoefficient,
          numSamplesDelay = numSamplesDelay_of bearingDegrees,
          weakChannelAmplitudeRatio = weakChannelAmplitudeRatio_of bearingDegrees\<rparr>)"

subsection \<open>main.cpp: mixing one source into the client frame (lines 226 to 252)\<close>

text \<open>
  \<open>clientSamples\<close> is the array of \<open>2 * BUFFER_LENGTH_SAMPLES_PER_CHANNEL\<close> samples; a channel is
  the offset of its first sample in the array. Reads of the source's ring and updates of the
  client array are checked against their blocks.
\<close>

definition ring_at :: "MixerRingBuffer \<Rightarrow> int \<Rightarrow> sample option" where
  "ring_at b p =
     (if getBuffer b \<le> p \<and> p < getBuffer b + int (length (ringSamples b))
      then Some (ringSamples b ! nat (p - getBuffer b)) else None)"

definition plateau_at :: "sample list \<Rightarrow> int \<Rightarrow> sample \<Rightarrow> sample list option" where
  "plateau_at clientSamples i sampleToAdd =
     (if 0 \<le> i \<and> i < int (length clientSamples)
      then Some (clientSamples[nat i := plateauAdditionOfSamples (clientSamples ! nat i) sampleToAdd])
      else None)"

definition goodChannel :: "spatial \<Rightarrow> int" where
  "goodChannel sp =
     (if bearingRelativeAngleToSource sp > 0 then BUFFER_LENGTH_SAMPLES_PER_CHANNEL else 0)"

definition delayedChannel :: "spatial \<Rightarrow> int" where
  "delayedChannel sp =
     (if bearingRelativeAngleToSource sp > 0 then 0 else BUFFER_LENGTH_SAMPLES_PER_CHANNEL)"

definition delaySamplePointer :: "MixerRingBuffer \<Rightarrow> int \<Rightarrow> int" where
  "delaySamplePointer otherAgentBuffer delay =
     (if getNextOutput otherAgentBuffer = getBuffer otherAgentBuffer
      then getBuffer otherAgentBuffer + RING_BUFFER_SAMPLES - delay
      else getNextOutput otherAgentBuffer - delay)"

text \<open>The body of the loop over \<open>s\<close>.\<close>

definition mixSample :: "spatial \<Rightarrow> MixerRingBuffer \<Rightarrow> int \<Rightarrow> sample list \<Rightarrow> sample list option" where
  "mixSample sp otherAgentBuffer s clientSamples =
     do {
       cs1 \<leftarrow> (if s < numSamplesDelay sp then do {
                 v \<leftarrow> ring_at otherAgentBuffer
                       (delaySamplePointer otherAgentBuffer (numSamplesDelay sp) + s);
                 let earlierSample = float_to_int (real_of_int (sint v) * attenuationCoefficient sp);
                 plateau_at clientSamples (delayedChannel sp + s)
                   (float_to_int16 (real_of_int earlierSample * weakChannelAmplitudeRatio sp))
               } else Some clientSamples);
       v \<leftarrow> ring_at otherAgentBuffer (getNextOutput otherAgentBuffer + s);
       let currentSample = float_to_int16 (real_of_int (sint v) * attenuationCoefficient sp);
       cs2 \<leftarrow> plateau_at cs1 (goodChannel sp + s) currentSample;
       (if s + numSamplesDelay sp < BUFFER_LENGTH_SAMPLES_PER_CHANNEL
        then plateau_at cs2 (delayedChannel sp + s + numSamplesDelay sp)
               (float_to_int16 (real_of_int (sint currentSample) * weakChannelAmplitudeRatio sp))
        else Some cs2)
     }"

text \<open>A \<^verbatim>\<open>for\<close> loop over a list of indices whose body may fail.\<close>

primrec for_each :: "('i \<Rightarrow> 's \<Rightarrow> 's option) \<Rightarrow> 'i list \<Rightarrow> 's \<Rightarrow> 's option" where
  "for_each body [] st = Some st"
| "for_each body (i # is) st = (case body i st of None \<Rightarrow> None | Some st' \<Rightarrow> for_each body is st')"

definition mixSource :: "spatial \<Rightarrow> MixerRingBuffer \<Rightarrow> sample list \<Rightarrow> sample list option" where
  "mixSource sp otherAgentBuffer clientSamples =
     for_each (mixSample sp otherAgentBuffer)
       (map int [0 ..< nat BUFFER_LENGTH_SAMPLES_PER_CHANNEL]) clientSamples"

subsection \<open>main.cpp: the frame of one listener (lines 135 to 259)\<close>

text \<open>
  Agents are compared by their position in the list, as the iterators are. Every agent
  carries a buffer (\<^verbatim>\<open>attachNewBufferToAgent\<close>). The body of the loop over \<open>otherAgent\<close>:
\<close>

definition mixOtherAgent :: "Agent list \<Rightarrow> nat \<Rightarrow> nat \<Rightarrow> sample list \<Rightarrow> sample list option" where
  "mixOtherAgent agentList agent otherAgent clientSamples =
     (let agentRingBuffer = getLinkedData (agentList ! agent) in
      if otherAgent \<noteq> agent \<or> (otherAgent = agent \<and> shouldLoopbackForAgent agentRingBuffer)
      then (let otherAgentBuffer = getLinkedData (agentList ! otherAgent) in
            if shouldBeAddedToMix otherAgentBuffer
            then mixSource (if otherAgent \<noteq> agent
                            then spatialize agentRingBuffer otherAgentBuffer
                            else spatial_self)
                   otherAgentBuffer clientSamples
            else Some clientSamples)
      else Some clientSamples)"

text \<open>
  The frame sent to the agent at index \<open>agent\<close>: the client array is zeroed and every agent
  of the list is offered to the mix. \<open>None\<close> stands for an access outside a block.
\<close>

definition mixForAgent :: "Agent list \<Rightarrow> nat \<Rightarrow> sample list option" where
  "mixForAgent agentList agent =
     for_each (mixOtherAgent agentList agent) [0 ..< length agentList]
       (replicate (nat (BUFFER_LENGTH_SAMPLES_PER_CHANNEL * 2)) 0)"

text \<open>The frames of one pass of the loop over the listeners: one for each avatar.\<close>

definition mixFrames :: "Agent list \<Rightarrow> (nat \<times> sample list option) list" where
  "mixFrames agentList =
     map (\<lambda>agent. (agent, mixForAgent agentList agent))
       (filter (\<lambda>agent. getType (agentList ! agent) = AGENT_TYPE_AVATAR) [0 ..< length agentList])"

subsection \<open>main.cpp: advancing the read cursors (lines 262 to 274)\<close>

definition advanceNextOutput :: "MixerRingBuffer \<Rightarrow> MixerRingBuffer" where
  "advanceNextOutput agentBuffer =
     (if shouldBeAddedToMix agentBuffer then
        (let b1 = agentBuffer\<lparr>getNextOutput :=
                    getNextOutput agentBuffer + BUFFER_LENGTH_SAMPLES_PER_CHANNEL\<rparr>;
             b2 = (if getNextOutput b1 \<ge> getBuffer b1 + RING_BUFFER_SAMPLES
                   then b1\<lparr>getNextOutput := getBuffer b1\<rparr> else b1)
         in b2\<lparr>shouldBeAddedToMix := False\<rparr>)
      else agentBuffer)"

text \<open>
  The buffers the mixer loop can reach: the read cursor starts at the origin of the ring (and
  returns there when the buffer is reset), the loop moves it by \<^verbatim>\<open>advanceNextOutput\<close> only,
  and everything else (the eligibility loop, incoming audio) changes other members.
\<close>

inductive mixerReachable :: "MixerRingBuffer \<Rightarrow> bool" where
  atOrigin: "getNextOutput b = getBuffer b \<Longrightarrow> mixerReachable b"
| advanced: "mixerReachable b \<Longrightarrow> mixerReachable (advanceNextOutput b)"
| otherMembers: "mixerReachable b \<Longrightarrow> getBuffer b' = getBuffer b
      \<Longrightarrow> getNextOutput b' = getNextOutput b \<Longrightarrow> mixerReachable b'"

subsection \<open>AudioRingBuffer.cpp: InterframeTimeGapHistory\<close>

text \<open>
  Modelled from the spec: the two constants are declared in \<^verbatim>\<open>AudioRingBuffer.h\<close>, which is
  missing. The specification gives \<open>S = 50\<close> gaps per interval and \<open>W = 32\<close> intervals per
  window.
\<close>

definition TIME_GAP_NUM_SAMPLES_IN_INTERVAL :: int where
  "TIME_GAP_NUM_SAMPLES_IN_INTERVAL = 50"

definition TIME_GAP_NUM_INTERVALS_IN_WINDOW :: int where
  "TIME_GAP_NUM_INTERVALS_IN_WINDOW = 32"

record InterframeTimeGapHistory =
  lastFrameReceivedTime :: "64 word"
  numSamplesInCurrentInterval :: int
  currentIntervalMaxGap :: "64 word"
  newestIntervalMaxGapAt :: int
  windowMaxGap :: "64 word"
  newWindowMaxGapAvailable :: bool
  intervalMaxGaps :: "64 word list"

text \<open>The constructor.\<close>

definition InterframeTimeGapHistory_new :: InterframeTimeGapHistory where
  "InterframeTimeGapHistory_new =
     \<lparr>lastFrameReceivedTime = 0,
      numSamplesInCurrentInterval = 0,
      currentIntervalMaxGap = 0,
      newestIntervalMaxGapAt = 0,
      windowMaxGap = 0,
      newWindowMaxGapAvailable = False,
      intervalMaxGaps = replicate (nat TIME_GAP_NUM_INTERVALS_IN_WINDOW) 0\<rparr>"

text \<open>
  The loop that recomputes the window maximum: \<open>i\<close> runs over the indices of the array, the
  accumulator starts at 0.
\<close>

definition windowMaxGapLoop :: "64 word list \<Rightarrow> 64 word" where
  "windowMaxGapLoop gaps =
     fold (\<lambda>i windowMax. if gaps ! i > windowMax then gaps ! i else windowMax)
       [0 ..< nat TIME_GAP_NUM_INTERVALS_IN_WINDOW] 0"

text \<open>
  \<^verbatim>\<open>frameReceived\<close>; the clock value \<^verbatim>\<open>usecTimestampNow()\<close> is the argument \<open>now\<close>. The gap is
  a difference of unsigned 64-bit values. The array is written at an index that the
  constructor and this function keep inside it.
\<close>

definition frameReceived :: "64 word \<Rightarrow> InterframeTimeGapHistory \<Rightarrow> InterframeTimeGapHistory" where
  "frameReceived now h =
     (if lastFrameReceivedTime h \<noteq> 0 then
        (let gap = now - lastFrameReceivedTime h;
             h1 = (if gap > currentIntervalMaxGap h then h\<lparr>currentIntervalMaxGap := gap\<rparr> else h);
             h2 = h1\<lparr>numSamplesInCurrentInterval := numSamplesInCurrentInterval h1 + 1\<rparr>;
             h3 = (if numSamplesInCurrentInterval h2 = TIME_GAP_NUM_SAMPLES_IN_INTERVAL then
                     (let newest = (if newestIntervalMaxGapAt h2 = TIME_GAP_NUM_INTERVALS_IN_WINDOW - 1
                                    then 0 else newestIntervalMaxGapAt h2 + 1);
                          gaps = (intervalMaxGaps h2)[nat newest := currentIntervalMaxGap h2]
                      in h2\<lparr>newestIntervalMaxGapAt := newest,
                            intervalMaxGaps := gaps,
                            windowMaxGap := windowMaxGapLoop gaps,
                            newWindowMaxGapAvailable := True,
                            numSamplesInCurrentInterval := 0,
                            currentIntervalMaxGap := 0\<rparr>)
                   else h2)
         in h3\<lparr>lastFrameReceivedTime := now\<rparr>)
      else h\<lparr>lastFrameReceivedTime := now\<rparr>)"

text \<open>\<^verbatim>\<open>getPastWindowMaxGap\<close> returns the window maximum and the updated tracker.\<close>

definition getPastWindowMaxGap :: "InterframeTimeGapHistory \<Rightarrow> 64 word \<times> InterframeTimeGapHistory" where
  "getPastWindowMaxGap h = (windowMaxGap h, h\<lparr>newWindowMaxGapAvailable := False\<rparr>)"

text \<open>The state the constructor establishes and \<^verbatim>\<open>frameReceived\<close> keeps.\<close>

definition tracker_inv :: "InterframeTimeGapHistory \<Rightarrow> bool" where
  "tracker_inv h \<longleftrightarrow>
     length (intervalMaxGaps h) = nat TIME_GAP_NUM_INTERVALS_IN_WINDOW
     \<and> 0 \<le> newestIntervalMaxGapAt h
     \<and> newestIntervalMaxGapAt h < TIME_GAP_NUM_INTERVALS_IN_WINDOW
     \<and> 0 \<le> numSamplesInCurrentInterval h
     \<and> numSamplesInCurrentInterval h < TIME_GAP_NUM_SAMPLES_IN_INTERVAL"

subsection \<open>AudioRingBuffer.cpp: AudioRingBuffer\<close>

text \<open>
  The members of the class, under their names without the leading underscore. \<open>buffer\<close> is the
  address of the block allocated by \<^verbatim>\<open>new int16_t[_sampleCapacity]\<close> and \<open>heap\<close> its contents;
  \<open>nextOutput\<close> and \<open>endOfLastWrite\<close> are addresses as well.
\<close>

record AudioRingBuffer =
  sampleCapacity :: int
  numFrameSamples :: int
  isStarved :: bool
  hasStarted :: bool
  randomAccessMode :: bool
  buffer :: int
  heap :: "sample list"
  nextOutput :: int
  endOfLastWrite :: int

text \<open>
  Modelled from the spec: \<^verbatim>\<open>RING_BUFFER_LENGTH_FRAMES\<close> is declared in \<^verbatim>\<open>AudioRingBuffer.h\<close>,
  which is missing. The specification sizes the ring as 10 frames.
\<close>

definition RING_BUFFER_LENGTH_FRAMES :: int where
  "RING_BUFFER_LENGTH_FRAMES = 10"

text \<open>
  The constructor. \<open>addr\<close> is the address that \<^verbatim>\<open>new\<close> returns and \<open>garbage\<close> the contents of
  the fresh block, which stay as they are unless the buffer is in random access mode.
\<close>

definition AudioRingBuffer_new :: "int \<Rightarrow> bool \<Rightarrow> int \<Rightarrow> sample list \<Rightarrow> AudioRingBuffer" where
  "AudioRingBuffer_new frameSamples randomAccess addr garbage =
     (let capacity = frameSamples * RING_BUFFER_LENGTH_FRAMES in
      if frameSamples \<noteq> 0 then
        \<lparr>sampleCapacity = capacity,
         numFrameSamples = frameSamples,
         isStarved = True,
         hasStarted = False,
         randomAccessMode = randomAccess,
         buffer = addr,
         heap = (if randomAccess then replicate (nat capacity) 0 else garbage),
         nextOutput = addr,
         endOfLastWrite = addr\<rparr>
      else
        \<lparr>sampleCapacity = capacity,
         numFrameSamples = frameSamples,
         isStarved = True,
         hasStarted = False,
         randomAccessMode = randomAccess,
         buffer = 0,
         heap = [],
         nextOutput = 0,
         endOfLastWrite = 0\<rparr>)"

text \<open>
  Access to the block: \<^verbatim>\<open>memcpy\<close> out of it, \<^verbatim>\<open>memcpy\<close> into it and \<^verbatim>\<open>memset\<close> to zero, each
  over \<open>n\<close> samples from address \<open>p\<close>. The result is \<open>None\<close> unless the whole range lies
  inside the block (a negative count becomes a huge \<^verbatim>\<open>size_t\<close>, hence is never inside).
\<close>

definition in_block :: "AudioRingBuffer \<Rightarrow> int \<Rightarrow> int \<Rightarrow> bool" where
  "in_block rb p n \<longleftrightarrow>
     0 \<le> n \<and> buffer rb \<le> p \<and> p + n \<le> buffer rb + int (length (heap rb))"

definition block_read :: "AudioRingBuffer \<Rightarrow> int \<Rightarrow> int \<Rightarrow> sample list option" where
  "block_read rb p n =
     (if in_block rb p n then Some (take (nat n) (drop (nat (p - buffer rb)) (heap rb)))
      else None)"

definition block_write :: "AudioRingBuffer \<Rightarrow> int \<Rightarrow> sample list \<Rightarrow> AudioRingBuffer option" where
  "block_write rb p xs =
     (if in_block rb p (int (length xs)) then
        Some (rb\<lparr>heap := take (nat (p - buffer rb)) (heap rb) @ xs
                      @ drop (nat (p - buffer rb) + length xs) (heap rb)\<rparr>)
      else None)"

definition block_zero :: "AudioRingBuffer \<Rightarrow> int \<Rightarrow> int \<Rightarrow> AudioRingBuffer option" where
  "block_zero rb p n =
     (if in_block rb p n then block_write rb p (replicate (nat n) 0) else None)"

text \<open>Reading \<open>n\<close> samples at offset \<open>off\<close> of the caller's array \<open>data\<close>.\<close>

definition data_read :: "sample list \<Rightarrow> int \<Rightarrow> int \<Rightarrow> sample list option" where
  "data_read data off n =
     (if 0 \<le> off \<and> 0 \<le> n \<and> off + n \<le> int (length data)
      then Some (take (nat n) (drop (nat off) data)) else None)"


text \<open>\<^verbatim>\<open>shiftedPositionAccomodatingWrap\<close>.\<close>

definition shiftedPositionAccomodatingWrap :: "AudioRingBuffer \<Rightarrow> int \<Rightarrow> int \<Rightarrow> int" where
  "shiftedPositionAccomodatingWrap rb position numSamplesShift =
     (if numSamplesShift > 0 \<and> position + numSamplesShift \<ge> buffer rb + sampleCapacity rb
      then position + numSamplesShift - sampleCapacity rb
      else if numSamplesShift < 0 \<and> position + numSamplesShift < buffer rb
      then position + numSamplesShift + sampleCapacity rb
      else position + numSamplesShift)"

text \<open>
  \<^verbatim>\<open>samplesAvailable\<close>: the pointer difference is stored in an \<^verbatim>\<open>int\<close> and returned as
  \<^verbatim>\<open>unsigned int\<close>.
\<close>

definition samplesAvailable :: "AudioRingBuffer \<Rightarrow> int" where
  "samplesAvailable rb =
     (if endOfLastWrite rb = 0 then 0
      else (let sampleDifference = s32 (endOfLastWrite rb - nextOutput rb);
                sampleDifference = (if sampleDifference < 0
                                    then sampleDifference + sampleCapacity rb
                                    else sampleDifference)
            in u32 sampleDifference))"

text \<open>
  \<^verbatim>\<open>readData\<close> returns the byte count, the samples copied to \<^verbatim>\<open>data\<close> and the buffer after
  the call. \<^verbatim>\<open>maxSize / sizeof(int16_t)\<close> is an unsigned 64-bit division; the count is
  narrowed to \<^verbatim>\<open>unsigned\<close> for the minimum and stored in an \<^verbatim>\<open>int\<close>.
\<close>

definition readData :: "AudioRingBuffer \<Rightarrow> int \<Rightarrow> (int \<times> sample list \<times> AudioRingBuffer) option" where
  "readData rb maxSize =
     (let numReadSamples = s32 (min (u32 (u64 maxSize div sizeof_int16)) (samplesAvailable rb));
          numReadSamples = (if randomAccessMode rb
                            then s32 (if endOfLastWrite rb \<noteq> 0
                                      then u64 maxSize div sizeof_int16 else 0)
                            else numReadSamples)
      in do {
        (out, rb1) \<leftarrow>
          (if nextOutput rb + numReadSamples > buffer rb + sampleCapacity rb then do {
             let numSamplesToEnd = (buffer rb + sampleCapacity rb) - nextOutput rb;
             part1 \<leftarrow> block_read rb (nextOutput rb) numSamplesToEnd;
             rb1 \<leftarrow> (if randomAccessMode rb
                     then block_zero rb (nextOutput rb) numSamplesToEnd else Some rb);
             part2 \<leftarrow> block_read rb1 (buffer rb1) (numReadSamples - numSamplesToEnd);
             rb2 \<leftarrow> (if randomAccessMode rb1
                     then block_zero rb1 (buffer rb1) (numReadSamples - numSamplesToEnd)
                     else Some rb1);
             Some (part1 @ part2, rb2)
           } else do {
             part \<leftarrow> block_read rb (nextOutput rb) numReadSamples;
             rb1 \<leftarrow> (if randomAccessMode rb
                     then block_zero rb (nextOutput rb) numReadSamples else Some rb);
             Some (part, rb1)
           });
        Some (s64 (u64 (numReadSamples * sizeof_int16)), out,
              rb1\<lparr>nextOutput := shiftedPositionAccomodatingWrap rb1 (nextOutput rb1) numReadSamples\<rparr>)
      })"

text \<open>\<^verbatim>\<open>readSamples\<close>.\<close>

definition readSamples :: "AudioRingBuffer \<Rightarrow> int \<Rightarrow> (int \<times> sample list \<times> AudioRingBuffer) option" where
  "readSamples rb maxSamples = readData rb (s64 (u64 (maxSamples * sizeof_int16)))"

text \<open>
  \<^verbatim>\<open>writeData\<close> returns the byte count and the buffer after the call; \<open>data\<close> is the caller's
  array, seen as samples. The log line of the overflow branch is left out.
\<close>

definition writeData :: "AudioRingBuffer \<Rightarrow> sample list \<Rightarrow> int \<Rightarrow> (int \<times> AudioRingBuffer) option" where
  "writeData rb data maxSize =
     (let samplesToCopy = s32 (min (u64 (u64 maxSize div sizeof_int16)) (u64 (sampleCapacity rb)));
          rb0 = (if hasStarted rb
                    \<and> (endOfLastWrite rb < nextOutput rb
                       \<and> nextOutput rb
                           \<le> shiftedPositionAccomodatingWrap rb (endOfLastWrite rb) samplesToCopy)
                 then rb\<lparr>endOfLastWrite := buffer rb, nextOutput := buffer rb, isStarved := True\<rparr>
                 else rb)
      in do {
        rb1 \<leftarrow>
          (if endOfLastWrite rb0 + samplesToCopy \<le> buffer rb0 + sampleCapacity rb0 then do {
             xs \<leftarrow> data_read data 0 samplesToCopy;
             block_write rb0 (endOfLastWrite rb0) xs
           } else do {
             let numSamplesToEnd = (buffer rb0 + sampleCapacity rb0) - endOfLastWrite rb0;
             xs \<leftarrow> data_read data 0 numSamplesToEnd;
             rb1 \<leftarrow> block_write rb0 (endOfLastWrite rb0) xs;
             ys \<leftarrow> data_read data numSamplesToEnd (samplesToCopy - numSamplesToEnd);
             block_write rb1 (buffer rb1) ys
           });
        Some (s64 (u64 (samplesToCopy * sizeof_int16)),
              rb1\<lparr>endOfLastWrite :=
                     shiftedPositionAccomodatingWrap rb1 (endOfLastWrite rb1) samplesToCopy\<rparr>)
      })"

text \<open>\<^verbatim>\<open>writeSamples\<close>; \<^verbatim>\<open>maxSamples\<close> is the length of the source array.\<close>

definition writeSamples :: "AudioRingBuffer \<Rightarrow> sample list \<Rightarrow> (int \<times> AudioRingBuffer) option" where
  "writeSamples rb source = writeData rb source (s64 (u64 (int (length source) * sizeof_int16)))"

text \<open>\<^verbatim>\<open>shiftReadPosition\<close>; the \<^verbatim>\<open>unsigned int\<close> argument is passed on as an \<^verbatim>\<open>int\<close>.\<close>

definition shiftReadPosition :: "AudioRingBuffer \<Rightarrow> int \<Rightarrow> AudioRingBuffer" where
  "shiftReadPosition rb numSamples =
     rb\<lparr>nextOutput := shiftedPositionAccomodatingWrap rb (nextOutput rb) (s32 (u32 numSamples))\<rparr>"

text \<open>
  A buffer as the constructor leaves it for a non-zero frame size and the operations above
  keep it: the block is allocated with \<open>sampleCapacity\<close> samples, the capacity is a positive
  \<^verbatim>\<open>int\<close>, and both cursors point into the block.
\<close>

definition ring_wf :: "AudioRingBuffer \<Rightarrow> bool" where
  "ring_wf rb \<longleftrightarrow>
     0 < buffer rb
     \<and> 0 < sampleCapacity rb \<and> sampleCapacity rb < 2 ^ 31
     \<and> int (length (heap rb)) = sampleCapacity rb
     \<and> buffer rb \<le> nextOutput rb \<and> nextOutput rb < buffer rb + sampleCapacity rb
     \<and> buffer rb \<le> endOfLastWrite rb \<and> endOfLastWrite rb < buffer rb + sampleCapacity rb"

subsection \<open>Interleavings of writes and reads\<close>

text \<open>
  A client of the ring buffer calls \<^verbatim>\<open>writeSamples\<close> with an array of samples or
  \<^verbatim>\<open>readSamples\<close> with a count. A run threads the buffer through the calls and adds up the
  samples each call reports (its byte count over \<^verbatim>\<open>sizeof(int16_t)\<close>): the total written
  and the total read.
\<close>

datatype ring_op = Write "sample list" | Read int

fun apply_op :: "ring_op \<Rightarrow> AudioRingBuffer \<times> int \<times> int \<Rightarrow> (AudioRingBuffer \<times> int \<times> int) option" where
  "apply_op (Write source) (rb, written, rd) =
     (case writeSamples rb source of
        None \<Rightarrow> None
      | Some (bytes, rb') \<Rightarrow> Some (rb', written + bytes div sizeof_int16, rd))"
| "apply_op (Read maxSamples) (rb, written, rd) =
     (case readSamples rb maxSamples of
        None \<Rightarrow> None
      | Some (bytes, out, rb') \<Rightarrow> Some (rb', written, rd + bytes div sizeof_int16))"

fun run_ops :: "ring_op list \<Rightarrow> AudioRingBuffer \<times> int \<times> int \<Rightarrow> (AudioRingBuffer \<times> int \<times> int) option" where
  "run_ops [] st = Some st"
| "run_ops (x # xs) st = (case apply_op x st of None \<Rightarrow> None | Some st' \<Rightarrow> run_ops xs st')"


subsection \<open>Concrete inputs\<close>

text \<open>
  A mixer-side buffer at address 4096 whose ring holds silence, with one frame written and
  nothing read.
\<close>

definition one_frame_buffer :: MixerRingBuffer where
  "one_frame_buffer =
     \<lparr>getBuffer = 4096,
      ringSamples = replicate 2560 0,
      getNextOutput = 4096,
      getEndOfLastWrite = 4096 + 256,
      isStarted = False,
      shouldBeAddedToMix = False,
      shouldLoopbackForAgent = False,
      getPosition = (0, 0, 0),
      getBearing = 0,
      getAttenuationRatio = 1\<rparr>"

definition avatar_with :: "MixerRingBuffer \<Rightarrow> Agent" where
  "avatar_with b = \<lparr>getType = AGENT_TYPE_AVATAR, getLinkedData = b\<rparr>"

text \<open>Fifty arrivals with the same time stamp, 1000 microseconds.\<close>

definition fifty_arrivals :: "64 word list" where
  "fifty_arrivals = replicate 50 1000"

text \<open>
  Ring buffers of capacity 10 (frames of one sample) at address 4096, marked as started by
  the mixer: with the write cursor at offset 2 behind the read cursor at offset 5, and with
  both cursors at offset 3.
\<close>

definition lapped_ring :: AudioRingBuffer where
  "lapped_ring =
     \<lparr>sampleCapacity = 10, numFrameSamples = 1, isStarved = True, hasStarted = True,
      randomAccessMode = False, buffer = 4096, heap = [0, 0, 0, 0, 0, 0, 0, 0, 0, 0],
      nextOutput = 4096 + 5, endOfLastWrite = 4096 + 2\<rparr>"

definition level_ring :: AudioRingBuffer where
  "level_ring =
     \<lparr>sampleCapacity = 10, numFrameSamples = 1, isStarved = True, hasStarted = True,
      randomAccessMode = False, buffer = 4096, heap = [0, 0, 0, 0, 0, 0, 0, 0, 0, 0],
      nextOutput = 4096 + 3, endOfLastWrite = 4096 + 3\<rparr>"

text \<open>A fresh buffer of capacity 10 whose block holds silence, not in random access mode.\<close>

definition fresh_ring :: AudioRingBuffer where
  "fresh_ring = AudioRingBuffer_new 1 False 4096 [0, 0, 0, 0, 0, 0, 0, 0, 0, 0]"

section \<open>Part II: verification\<close>

subsection \<open>Conversions\<close>

lemma sint16_bounds: "- 32768 \<le> sint (w :: sample)" "sint (w :: sample) \<le> 32767"
  using sint_ge[of w] sint_lt[of w] by simp_all

lemma sint_word_of_int16: "sint (word_of_int x :: sample) = (x + 32768) mod 65536 - 32768"
  by (simp add: int_word_sint)

lemma wrap16_in_range:
  "- 32768 \<le> x \<Longrightarrow> x \<le> 32767 \<Longrightarrow> ((x::int) + 32768) mod 65536 - 32768 = x"
  by (simp add: mod_pos_pos_trivial)

lemma wrap16_above:
  assumes "32767 < x" "x \<le> 65534"
  shows "((x::int) + 32768) mod 65536 - 32768 = x - 65536"
proof -
  have "x + 32768 = (x - 32768) + 65536" by arith
  then have "(x + 32768) mod 65536 = ((x - 32768) + 65536) mod 65536" by (rule arg_cong)
  also have "\<dots> = (x - 32768) mod 65536" by (simp only: mod_add_self2)
  also have "\<dots> = x - 32768" using assms by (simp add: mod_pos_pos_trivial)
  finally show ?thesis by simp
qed

subsection \<open>Saturating addition\<close>

text \<open>
  What the function computes, for all inputs: the lower bound is enforced, the upper bound is
  not, and a sum above \<open>INT16_MAX\<close> wraps around to a negative sample.
\<close>

lemma plateauAdditionOfSamples_sint:
  "sint (plateauAdditionOfSamples mix add) =
     (let s = sint mix + sint add in
      if MAX_SAMPLE_VALUE < s then s - 65536
      else if s < MIN_SAMPLE_VALUE then MIN_SAMPLE_VALUE else s)"
proof -
  have b: "- 32768 \<le> sint mix" "sint mix \<le> 32767" "- 32768 \<le> sint add" "sint add \<le> 32767"
    using sint16_bounds by blast+
  define s where "s = sint add + sint mix"
  have sb: "s \<le> 65534" using b by (simp add: s_def)
  have "sint (plateauAdditionOfSamples mix add) = (max (- 32768) s + 32768) mod 65536 - 32768"
    by (simp add: plateauAdditionOfSamples_def Let_def MIN_SAMPLE_VALUE_def
        sint_word_of_int16 s_def)
  also have "\<dots> = (if 32767 < s then s - 65536 else if s < - 32768 then - 32768 else s)"
  proof (cases "32767 < s")
    case True
    then show ?thesis using wrap16_above[of s] sb by (simp add: max_def)
  next
    case False
    then show ?thesis using wrap16_in_range[of "max (- 32768) s"] by (simp add: max_def)
  qed
  finally show ?thesis
    by (simp add: Let_def MAX_SAMPLE_VALUE_def MIN_SAMPLE_VALUE_def s_def add.commute)
qed

lemma plateauAdditionOfSamples_below_max:
  "sint mix + sint add \<le> MAX_SAMPLE_VALUE \<Longrightarrow>
     sint (plateauAdditionOfSamples mix add) = saturating_add_spec mix add"
  by (simp add: plateauAdditionOfSamples_sint saturating_add_spec_def Let_def
      MAX_SAMPLE_VALUE_def MIN_SAMPLE_VALUE_def)

text \<open>
  Claim C1 (two-sided saturation of the mixing addition). The claim asks for
  \<open>clamp(mix + add, INT16_MIN, INT16_MAX)\<close>. At \<open>mix = 32767\<close>, \<open>add = 1\<close> the specified
  result is \<open>32767\<close>; the function stores \<open>-32768\<close>: the positive side is not capped.
\<close>

theorem plateauAdditionOfSamples_wraps_at_max:
  "sint (plateauAdditionOfSamples 32767 1) = - 32768 \<and> saturating_add_spec 32767 1 = 32767"
  by (simp add: plateauAdditionOfSamples_def saturating_add_spec_def
      MAX_SAMPLE_VALUE_def MIN_SAMPLE_VALUE_def)

subsection \<open>Constants of the mixer\<close>

lemma JITTER_BUFFER_SAMPLES_eq: "JITTER_BUFFER_SAMPLES = 264"
  by (simp add: JITTER_BUFFER_SAMPLES_def JITTER_BUFFER_MSECS_def SAMPLE_RATE_def float_to_int_def)

lemma BUFFER_LENGTH_SAMPLES_PER_CHANNEL_eq: "BUFFER_LENGTH_SAMPLES_PER_CHANNEL = 256"
  by (simp add: BUFFER_LENGTH_SAMPLES_PER_CHANNEL_def BUFFER_LENGTH_BYTES_def sizeof_int16_def)

lemma RING_BUFFER_SAMPLES_eq: "RING_BUFFER_SAMPLES = 2560"
  by (simp add: RING_BUFFER_SAMPLES_def RING_BUFFER_FRAMES_def BUFFER_LENGTH_SAMPLES_PER_CHANNEL_eq)

subsection \<open>Eligibility gate\<close>

lemma checkAgents_nth:
  "i < length agentList \<Longrightarrow>
     getLinkedData (checkAgents agentList ! i) = checkAgentBuffer (getLinkedData (agentList ! i))
     \<and> getType (checkAgents agentList ! i) = getType (agentList ! i)"
  by (simp add: checkAgents_def)

text \<open>
  Claim C3 (the eligibility gate follows the table). For every agent of the list whose buffer
  has been written, with \<open>b\<close> its buffer before the loop, \<open>b'\<close> after it and \<open>avail\<close> the
  samples available in \<open>b\<close>, where \<open>F = 256\<close> and \<open>J = 264\<close> (12 ms at 22050 Hz, truncated):
  if \<open>b\<close> is not started and \<open>avail \<le> F + J\<close>, only \<open>shouldBeAddedToMix\<close> is cleared; else if
  \<open>avail < F\<close>, both flags are cleared; otherwise both flags are set. No other field changes.
\<close>

theorem eligibility_gate_table:
  assumes "i < length agentList"
    and "getEndOfLastWrite (getLinkedData (agentList ! i)) \<noteq> 0"
  defines "b \<equiv> getLinkedData (agentList ! i)"
  defines "b' \<equiv> getLinkedData (checkAgents agentList ! i)"
  defines "avail \<equiv> diffLastWriteNextOutput (getLinkedData (agentList ! i))"
  shows "BUFFER_LENGTH_SAMPLES_PER_CHANNEL = 256 \<and> JITTER_BUFFER_SAMPLES = 264
    \<and> (if \<not> isStarted b \<and> avail \<le> 256 + 264
        then b' = b\<lparr>shouldBeAddedToMix := False\<rparr>
        else if avail < 256
        then b' = b\<lparr>isStarted := False, shouldBeAddedToMix := False\<rparr>
        else b' = b\<lparr>isStarted := True, shouldBeAddedToMix := True\<rparr>)"
  using assms(1,2) unfolding b_def b'_def avail_def
  by (simp add: checkAgents_nth checkAgentBuffer_def JITTER_BUFFER_SAMPLES_eq
      BUFFER_LENGTH_SAMPLES_PER_CHANNEL_eq)

lemma getLinkedData_avatar_with: "getLinkedData (avatar_with b) = b"
  by (simp add: avatar_with_def)

lemma one_frame_buffer_fields:
  "getEndOfLastWrite one_frame_buffer = 4352" "getNextOutput one_frame_buffer = 4096"
  "\<not> isStarted one_frame_buffer"
  by (simp_all add: one_frame_buffer_def)

text \<open>
  The three rows at concrete buffers: one frame available and not started (held back), one
  frame available and started (eligible), 255 samples available and started (starved).
\<close>

theorem eligibility_gate_table_witness:
  "getLinkedData (checkAgents [avatar_with one_frame_buffer] ! 0)
     = one_frame_buffer\<lparr>shouldBeAddedToMix := False\<rparr>
   \<and> getLinkedData (checkAgents [avatar_with (one_frame_buffer\<lparr>isStarted := True\<rparr>)] ! 0)
     = one_frame_buffer\<lparr>isStarted := True, shouldBeAddedToMix := True\<rparr>
   \<and> getLinkedData (checkAgents
          [avatar_with (one_frame_buffer\<lparr>getEndOfLastWrite := 4351, isStarted := True\<rparr>)] ! 0)
     = one_frame_buffer\<lparr>getEndOfLastWrite := 4351, isStarted := False,
         shouldBeAddedToMix := False\<rparr>"
  using eligibility_gate_table[of 0 "[avatar_with one_frame_buffer]"]
    eligibility_gate_table[of 0 "[avatar_with (one_frame_buffer\<lparr>isStarted := True\<rparr>)]"]
    eligibility_gate_table[of 0
      "[avatar_with (one_frame_buffer\<lparr>getEndOfLastWrite := 4351, isStarted := True\<rparr>)]"]
  by (simp add: getLinkedData_avatar_with one_frame_buffer_fields diffLastWriteNextOutput_def
      RING_BUFFER_SAMPLES_eq)

subsection \<open>Interframe gap tracker\<close>

lemma if_less_max: "(if m < g then g else m) = max m (g::'a::linorder)"
  by (auto simp add: max_def)

lemma fold_max_take:
  "n \<le> length gaps \<Longrightarrow>
     fold (\<lambda>i (m::64 word). if gaps ! i > m then gaps ! i else m) [0 ..< n] acc
       = Max (insert acc (set (take n gaps)))"
proof (induction n)
  case 0
  then show ?case by simp
next
  case (Suc n)
  then have n: "n < length gaps" by simp
  have "fold (\<lambda>i (m::64 word). if gaps ! i > m then gaps ! i else m) [0 ..< Suc n] acc
      = max (gaps ! n) (Max (insert acc (set (take n gaps))))"
    using Suc by (simp add: if_less_max max.commute)
  also have "\<dots> = Max (insert (gaps ! n) (insert acc (set (take n gaps))))"
    by simp
  also have "insert (gaps ! n) (insert acc (set (take n gaps))) = insert acc (set (take (Suc n) gaps))"
    using n by (auto simp add: take_Suc_conv_app_nth)
  finally show ?case .
qed

lemma windowMaxGapLoop_Max:
  assumes "length gaps = nat TIME_GAP_NUM_INTERVALS_IN_WINDOW"
  shows "windowMaxGapLoop gaps = Max (set gaps)"
proof -
  have ne: "gaps \<noteq> []" using assms by (auto simp add: TIME_GAP_NUM_INTERVALS_IN_WINDOW_def)
  have "windowMaxGapLoop gaps = Max (insert 0 (set gaps))"
    unfolding windowMaxGapLoop_def using fold_max_take[of "length gaps" gaps 0] assms by simp
  also have "\<dots> = max 0 (Max (set gaps))"
    using ne by simp
  also have "\<dots> = Max (set gaps)" by (simp add: max_def)
  finally show ?thesis .
qed

lemma tracker_inv_new: "tracker_inv InterframeTimeGapHistory_new"
  by (simp add: tracker_inv_def InterframeTimeGapHistory_new_def
      TIME_GAP_NUM_INTERVALS_IN_WINDOW_def TIME_GAP_NUM_SAMPLES_IN_INTERVAL_def)

lemma newest_step_mod:
  "0 \<le> n \<Longrightarrow> n < TIME_GAP_NUM_INTERVALS_IN_WINDOW \<Longrightarrow>
     (if n = TIME_GAP_NUM_INTERVALS_IN_WINDOW - 1 then 0 else n + 1)
       = (n + 1) mod TIME_GAP_NUM_INTERVALS_IN_WINDOW"
  by (simp add: TIME_GAP_NUM_INTERVALS_IN_WINDOW_def mod_pos_pos_trivial)

lemma frameReceived_first:
  "lastFrameReceivedTime h = 0 \<Longrightarrow> frameReceived now h = h\<lparr>lastFrameReceivedTime := now\<rparr>"
  by (simp add: frameReceived_def)

lemma frameReceived_later:
  assumes "tracker_inv h" "lastFrameReceivedTime h \<noteq> 0"
  shows "frameReceived now h =
    (let gap = now - lastFrameReceivedTime h;
         intervalMax = max (currentIntervalMaxGap h) gap;
         slot = (newestIntervalMaxGapAt h + 1) mod TIME_GAP_NUM_INTERVALS_IN_WINDOW;
         gaps = (intervalMaxGaps h)[nat slot := intervalMax]
     in if numSamplesInCurrentInterval h + 1 = TIME_GAP_NUM_SAMPLES_IN_INTERVAL
        then h\<lparr>lastFrameReceivedTime := now,
               numSamplesInCurrentInterval := 0,
               currentIntervalMaxGap := 0,
               newestIntervalMaxGapAt := slot,
               windowMaxGap := Max (set gaps),
               newWindowMaxGapAvailable := True,
               intervalMaxGaps := gaps\<rparr>
        else h\<lparr>lastFrameReceivedTime := now,
               numSamplesInCurrentInterval := numSamplesInCurrentInterval h + 1,
               currentIntervalMaxGap := intervalMax\<rparr>)"
proof -
  have len: "length (intervalMaxGaps h) = nat TIME_GAP_NUM_INTERVALS_IN_WINDOW"
    and nw: "0 \<le> newestIntervalMaxGapAt h" "newestIntervalMaxGapAt h < TIME_GAP_NUM_INTERVALS_IN_WINDOW"
    using assms(1) by (simp_all add: tracker_inv_def)
  note st = newest_step_mod[OF nw]
  have mx: "\<And>g. (if g > currentIntervalMaxGap h then g else currentIntervalMaxGap h)
      = max (currentIntervalMaxGap h) g"
    by (simp add: if_less_max)
  have wm: "\<And>i v. windowMaxGapLoop ((intervalMaxGaps h)[i := v]) = Max (set ((intervalMaxGaps h)[i := v]))"
    by (rule windowMaxGapLoop_Max) (simp add: len)
  show ?thesis
  proof (cases "now - lastFrameReceivedTime h > currentIntervalMaxGap h")
    case True
    then show ?thesis using assms(2)
      by (simp add: frameReceived_def Let_def wm max_def flip: st)
  next
    case False
    then show ?thesis using assms(2)
      by (simp add: frameReceived_def Let_def wm max_def flip: st)
  qed
qed

lemma tracker_inv_frameReceived:
  assumes "tracker_inv h"
  shows "tracker_inv (frameReceived now h)"
proof (cases "lastFrameReceivedTime h = 0")
  case True
  then show ?thesis using assms by (simp add: frameReceived_first tracker_inv_def)
next
  case False
  have "0 \<le> (newestIntervalMaxGapAt h + 1) mod TIME_GAP_NUM_INTERVALS_IN_WINDOW"
       "(newestIntervalMaxGapAt h + 1) mod TIME_GAP_NUM_INTERVALS_IN_WINDOW < TIME_GAP_NUM_INTERVALS_IN_WINDOW"
    by (simp_all add: TIME_GAP_NUM_INTERVALS_IN_WINDOW_def)
  then show ?thesis
    using assms unfolding frameReceived_later[OF assms False] Let_def
    by (auto simp add: tracker_inv_def TIME_GAP_NUM_SAMPLES_IN_INTERVAL_def)
qed


lemma tracker_inv_fold:
  "tracker_inv h \<Longrightarrow> tracker_inv (fold frameReceived ts h)"
  by (induction ts arbitrary: h) (simp_all add: tracker_inv_frameReceived)

lemma lastFrameReceivedTime_frameReceived:
  "lastFrameReceivedTime (frameReceived now h) = now"
  by (simp add: frameReceived_def Let_def)

lemma lastFrameReceivedTime_fold:
  "ts \<noteq> [] \<Longrightarrow> lastFrameReceivedTime (fold frameReceived ts h) = last ts"
  by (induction ts arbitrary: h) (auto simp add: lastFrameReceivedTime_frameReceived)

lemma gap_tracker_interval_count:
  assumes "\<forall>t\<in>set ts. t \<noteq> 0" and "ts \<noteq> []"
  defines "h \<equiv> fold frameReceived ts InterframeTimeGapHistory_new"
  shows "numSamplesInCurrentInterval h = int ((length ts - 1) mod 50)
       \<and> newestIntervalMaxGapAt h = int (((length ts - 1) div 50) mod 32)"
  using assms(1,2) unfolding h_def
proof (induction ts rule: rev_induct)
  case Nil
  then show ?case by simp
next
  case (snoc x xs)
  show ?case
  proof (cases "xs = []")
    case True
    then show ?thesis
      by (simp add: frameReceived_first InterframeTimeGapHistory_new_def)
  next
    case False
    define g where "g = fold frameReceived xs InterframeTimeGapHistory_new"
    obtain m where m: "length xs = Suc m" using False by (cases xs) auto
    have inv: "tracker_inv g" unfolding g_def by (rule tracker_inv_fold[OF tracker_inv_new])
    have nz: "lastFrameReceivedTime g \<noteq> 0"
      using snoc.prems False by (simp add: g_def lastFrameReceivedTime_fold)
    have ih: "numSamplesInCurrentInterval g = int (m mod 50)"
             "newestIntervalMaxGapAt g = int ((m div 50) mod 32)"
      using snoc.IH snoc.prems False m by (simp_all add: g_def)
    have step: "fold frameReceived (xs @ [x]) InterframeTimeGapHistory_new = frameReceived x g"
      by (simp add: g_def)
    show ?thesis
    proof (cases "m mod 50 = 49")
      case True
      then have d: "Suc m div 50 = Suc (m div 50)" "Suc m mod 50 = 0"
        by (simp_all add: div_Suc mod_Suc)
      have "(int (m div 50 mod 32) + 1) mod 32 = int (Suc (m div 50) mod 32)"
        by (metis Suc_eq_plus1 mod_Suc_eq of_nat_Suc of_nat_mod of_nat_numeral semiring_1_class.of_nat_simps(2) add.commute)
      then show ?thesis
        using True d unfolding step frameReceived_later[OF inv nz] Let_def
        by (simp add: ih m TIME_GAP_NUM_SAMPLES_IN_INTERVAL_def TIME_GAP_NUM_INTERVALS_IN_WINDOW_def)
    next
      case False
      then have d: "Suc m div 50 = m div 50" "Suc m mod 50 = Suc (m mod 50)"
        by (simp_all add: div_Suc mod_Suc)
      have "int (m mod 50) + 1 \<noteq> 50" using False by linarith
      then show ?thesis
        using d unfolding step frameReceived_later[OF inv nz] Let_def
        by (simp add: ih m TIME_GAP_NUM_SAMPLES_IN_INTERVAL_def TIME_GAP_NUM_INTERVALS_IN_WINDOW_def)
    qed
  qed
qed

text \<open>
  Claim C7 (the gap tracker behaves as specified). For the tracker \<open>h\<close> reached from the
  constructor by any sequence \<open>ts\<close> of arrival times: the previous arrival \<open>t_prev\<close> is the
  last element of \<open>ts\<close>, and 0 when there was no call; a call with \<open>t_prev = 0\<close> records the
  time and nothing else; a call with \<open>t_prev \<noteq> 0\<close> computes \<open>gap = now - t_prev\<close> and the
  interval maximum, and exactly when this is the 50th gap of the interval it stores the
  maximum at \<open>(newest + 1) mod 32\<close>, sets the window maximum to the maximum of the 32 stored
  entries, sets the flag and resets count and maximum; draining returns the window maximum
  and clears only the flag.
\<close>

theorem gap_tracker_behaviour:
  "let h = fold frameReceived ts InterframeTimeGapHistory_new;
       t_prev = lastFrameReceivedTime h
   in (ts = [] \<longrightarrow> t_prev = 0)
    \<and> (ts \<noteq> [] \<longrightarrow> t_prev = last ts)
    \<and> (t_prev = 0 \<longrightarrow> frameReceived now h = h\<lparr>lastFrameReceivedTime := now\<rparr>)
    \<and> (t_prev \<noteq> 0 \<longrightarrow> frameReceived now h =
         (let gap = now - t_prev;
              intervalMax = max (currentIntervalMaxGap h) gap;
              slot = (newestIntervalMaxGapAt h + 1) mod 32;
              gaps = (intervalMaxGaps h)[nat slot := intervalMax]
          in if numSamplesInCurrentInterval h + 1 = 50
             then h\<lparr>lastFrameReceivedTime := now,
                    numSamplesInCurrentInterval := 0,
                    currentIntervalMaxGap := 0,
                    newestIntervalMaxGapAt := slot,
                    windowMaxGap := Max (set gaps),
                    newWindowMaxGapAvailable := True,
                    intervalMaxGaps := gaps\<rparr>
             else h\<lparr>lastFrameReceivedTime := now,
                    numSamplesInCurrentInterval := numSamplesInCurrentInterval h + 1,
                    currentIntervalMaxGap := intervalMax\<rparr>))
    \<and> length (intervalMaxGaps h) = 32
    \<and> 0 \<le> numSamplesInCurrentInterval h \<and> numSamplesInCurrentInterval h < 50
    \<and> getPastWindowMaxGap h = (windowMaxGap h, h\<lparr>newWindowMaxGapAvailable := False\<rparr>)"
proof -
  define h where "h = fold frameReceived ts InterframeTimeGapHistory_new"
  have inv: "tracker_inv h" unfolding h_def by (rule tracker_inv_fold[OF tracker_inv_new])
  have a: "ts = [] \<longrightarrow> lastFrameReceivedTime h = 0"
    by (simp add: h_def InterframeTimeGapHistory_new_def)
  have b: "ts \<noteq> [] \<longrightarrow> lastFrameReceivedTime h = last ts"
    by (simp add: h_def lastFrameReceivedTime_fold)
  have c: "lastFrameReceivedTime h = 0 \<longrightarrow> frameReceived now h = h\<lparr>lastFrameReceivedTime := now\<rparr>"
    by (simp add: frameReceived_first)
  have d: "lastFrameReceivedTime h \<noteq> 0 \<longrightarrow> frameReceived now h =
         (let gap = now - lastFrameReceivedTime h;
              intervalMax = max (currentIntervalMaxGap h) gap;
              slot = (newestIntervalMaxGapAt h + 1) mod 32;
              gaps = (intervalMaxGaps h)[nat slot := intervalMax]
          in if numSamplesInCurrentInterval h + 1 = 50
             then h\<lparr>lastFrameReceivedTime := now,
                    numSamplesInCurrentInterval := 0,
                    currentIntervalMaxGap := 0,
                    newestIntervalMaxGapAt := slot,
                    windowMaxGap := Max (set gaps),
                    newWindowMaxGapAvailable := True,
                    intervalMaxGaps := gaps\<rparr>
             else h\<lparr>lastFrameReceivedTime := now,
                    numSamplesInCurrentInterval := numSamplesInCurrentInterval h + 1,
                    currentIntervalMaxGap := intervalMax\<rparr>)"
    using frameReceived_later[OF inv, of now]
    by (simp add: TIME_GAP_NUM_SAMPLES_IN_INTERVAL_def TIME_GAP_NUM_INTERVALS_IN_WINDOW_def)
  have e: "length (intervalMaxGaps h) = 32" "0 \<le> numSamplesInCurrentInterval h"
    "numSamplesInCurrentInterval h < 50"
    using inv by (simp_all add: tracker_inv_def TIME_GAP_NUM_SAMPLES_IN_INTERVAL_def
        TIME_GAP_NUM_INTERVALS_IN_WINDOW_def)
  have f: "getPastWindowMaxGap h = (windowMaxGap h, h\<lparr>newWindowMaxGapAvailable := False\<rparr>)"
    by (simp add: getPastWindowMaxGap_def)
  show ?thesis
    unfolding Let_def h_def[symmetric] using a b c d[unfolded Let_def] e f by blast
qed

lemma fifty_arrivals_facts:
  "\<forall>t\<in>set fifty_arrivals. t \<noteq> 0" "fifty_arrivals \<noteq> []" "length fifty_arrivals = 50"
  "last fifty_arrivals = 1000"
  by (simp_all add: fifty_arrivals_def)

text \<open>
  Two runs: the fourth arrival after arrivals at 100, 200 and 300, and the arrival that
  completes the first interval of 50 gaps.
\<close>

theorem gap_tracker_behaviour_witness:
  "frameReceived 450 (fold frameReceived [100, 200, 300] InterframeTimeGapHistory_new)
     = (fold frameReceived [100, 200, 300] InterframeTimeGapHistory_new)
         \<lparr>lastFrameReceivedTime := 450, numSamplesInCurrentInterval := 3,
          currentIntervalMaxGap := 150\<rparr>
   \<and> newWindowMaxGapAvailable
        (frameReceived 1250 (fold frameReceived fifty_arrivals InterframeTimeGapHistory_new))
   \<and> numSamplesInCurrentInterval
        (frameReceived 1250 (fold frameReceived fifty_arrivals InterframeTimeGapHistory_new)) = 0
   \<and> newestIntervalMaxGapAt
        (frameReceived 1250 (fold frameReceived fifty_arrivals InterframeTimeGapHistory_new)) = 1"
proof -
  define h where "h = fold frameReceived [100, 200, 300] InterframeTimeGapHistory_new"
  have small: "lastFrameReceivedTime h = 300" "numSamplesInCurrentInterval h = 2"
    "currentIntervalMaxGap h = 100"
    by (simp_all add: h_def frameReceived_def InterframeTimeGapHistory_new_def Let_def
        TIME_GAP_NUM_SAMPLES_IN_INTERVAL_def)
  have "frameReceived 450 h
     = h\<lparr>lastFrameReceivedTime := 450, numSamplesInCurrentInterval := 3,
          currentIntervalMaxGap := 150\<rparr>"
    using gap_tracker_behaviour[of "[100, 200, 300]" 450, unfolded Let_def, folded h_def]
    by (simp add: small)
  then have first: "frameReceived 450 (fold frameReceived [100, 200, 300] InterframeTimeGapHistory_new)
     = (fold frameReceived [100, 200, 300] InterframeTimeGapHistory_new)
         \<lparr>lastFrameReceivedTime := 450, numSamplesInCurrentInterval := 3,
          currentIntervalMaxGap := 150\<rparr>"
    unfolding h_def .
  have cnt: "numSamplesInCurrentInterval (fold frameReceived fifty_arrivals InterframeTimeGapHistory_new) = 49"
    "newestIntervalMaxGapAt (fold frameReceived fifty_arrivals InterframeTimeGapHistory_new) = 0"
    using gap_tracker_interval_count[OF fifty_arrivals_facts(1,2)]
    by (simp_all add: fifty_arrivals_facts)
  have prev: "lastFrameReceivedTime (fold frameReceived fifty_arrivals InterframeTimeGapHistory_new) = 1000"
    by (simp add: lastFrameReceivedTime_fold fifty_arrivals_facts)
  have full: "frameReceived 1250 (fold frameReceived fifty_arrivals InterframeTimeGapHistory_new)
     = (let h = fold frameReceived fifty_arrivals InterframeTimeGapHistory_new;
            gaps = (intervalMaxGaps h)[1 := max (currentIntervalMaxGap h) 250]
        in h\<lparr>lastFrameReceivedTime := 1250,
               numSamplesInCurrentInterval := 0,
               currentIntervalMaxGap := 0,
               newestIntervalMaxGapAt := 1,
               windowMaxGap := Max (set gaps),
               newWindowMaxGapAvailable := True,
               intervalMaxGaps := gaps\<rparr>)"
    using gap_tracker_behaviour[of fifty_arrivals 1250]
    by (simp add: Let_def cnt prev)
  have second: "newWindowMaxGapAvailable
        (frameReceived 1250 (fold frameReceived fifty_arrivals InterframeTimeGapHistory_new))
   \<and> numSamplesInCurrentInterval
        (frameReceived 1250 (fold frameReceived fifty_arrivals InterframeTimeGapHistory_new)) = 0
   \<and> newestIntervalMaxGapAt
        (frameReceived 1250 (fold frameReceived fifty_arrivals InterframeTimeGapHistory_new)) = 1"
    unfolding full by (simp add: Let_def)
  from first second show ?thesis by (rule conjI)
qed

subsection \<open>Ring buffer: conversions, cursors and the random access read\<close>

lemma u32_id: "0 \<le> x \<Longrightarrow> x < 2 ^ 32 \<Longrightarrow> u32 x = x"
  by (simp add: u32_def mod_pos_pos_trivial)

lemma u64_id: "0 \<le> x \<Longrightarrow> x < 2 ^ 64 \<Longrightarrow> u64 x = x"
  by (simp add: u64_def mod_pos_pos_trivial)

lemma s32_id: "- (2 ^ 31) \<le> x \<Longrightarrow> x < 2 ^ 31 \<Longrightarrow> s32 x = x"
  by (simp add: s32_def mod_pos_pos_trivial)

lemma s64_id: "- (2 ^ 63) \<le> x \<Longrightarrow> x < 2 ^ 63 \<Longrightarrow> s64 x = x"
  by (simp add: s64_def mod_pos_pos_trivial)

lemma byte_count_id: "0 \<le> n \<Longrightarrow> n < 2 ^ 31 \<Longrightarrow> s64 (u64 (n * sizeof_int16)) = n * 2"
  by (simp add: sizeof_int16_def u64_id s64_id)

lemma sample_count_id: "0 \<le> n \<Longrightarrow> n < 2 ^ 31 \<Longrightarrow> u64 (n * 2) div sizeof_int16 = n"
  by (simp add: sizeof_int16_def u64_id)

lemma samplesAvailable_wf:
  assumes "ring_wf rb"
  shows "samplesAvailable rb = (endOfLastWrite rb - nextOutput rb) mod sampleCapacity rb"
    and "0 \<le> samplesAvailable rb" and "samplesAvailable rb < sampleCapacity rb"
proof -
  let ?d = "endOfLastWrite rb - nextOutput rb"
  let ?c = "sampleCapacity rb"
  have w: "0 < buffer rb" "0 < ?c" "?c < 2 ^ 31" "- ?c < ?d" "?d < ?c" "endOfLastWrite rb \<noteq> 0"
    using assms by (auto simp add: ring_wf_def)
  have s: "s32 ?d = ?d" using w by (intro s32_id) auto
  have m: "?d mod ?c = (if ?d < 0 then ?d + ?c else ?d)"
  proof (cases "?d < 0")
    case True
    have "?d mod ?c = (?d + ?c) mod ?c" by simp
    also have "\<dots> = ?d + ?c" using True w by (intro mod_pos_pos_trivial) auto
    finally show ?thesis using True by simp
  next
    case False
    then show ?thesis using w by (simp add: mod_pos_pos_trivial)
  qed
  have r: "0 \<le> (if ?d < 0 then ?d + ?c else ?d)" "(if ?d < 0 then ?d + ?c else ?d) < ?c"
    using w by auto
  have "samplesAvailable rb = u32 (if ?d < 0 then ?d + ?c else ?d)"
    using w by (simp add: samplesAvailable_def Let_def s)
  also have "\<dots> = (if ?d < 0 then ?d + ?c else ?d)"
    using r w by (intro u32_id) auto
  finally have e: "samplesAvailable rb = (if ?d < 0 then ?d + ?c else ?d)" .
  show "samplesAvailable rb = ?d mod ?c" using e m by simp
  show "0 \<le> samplesAvailable rb" using e r by simp
  show "samplesAvailable rb < ?c" using e r by simp
qed

lemma shifted_in_block:
  assumes "ring_wf rb" "buffer rb \<le> p" "p < buffer rb + sampleCapacity rb"
    "0 \<le> n" "n \<le> sampleCapacity rb"
  shows "shiftedPositionAccomodatingWrap rb p n = buffer rb + (p - buffer rb + n) mod sampleCapacity rb"
proof -
  let ?c = "sampleCapacity rb"
  let ?o = "p - buffer rb"
  have c: "0 < ?c" using assms(1) by (simp add: ring_wf_def)
  show ?thesis
  proof (cases "n > 0 \<and> p + n \<ge> buffer rb + ?c")
    case True
    have "(?o + n) mod ?c = (?o + n - ?c + ?c) mod ?c" by simp
    also have "\<dots> = (?o + n - ?c) mod ?c" by (simp only: mod_add_self2)
    also have "\<dots> = ?o + n - ?c" using True assms by (intro mod_pos_pos_trivial) auto
    finally show ?thesis using True by (simp add: shiftedPositionAccomodatingWrap_def)
  next
    case False
    then have "p + n < buffer rb + ?c" using assms by auto
    then have "(?o + n) mod ?c = ?o + n" using assms by (intro mod_pos_pos_trivial) auto
    then show ?thesis using False assms by (auto simp add: shiftedPositionAccomodatingWrap_def)
  qed
qed


lemma readSamples_random_access:
  assumes wf: "ring_wf rb" and ram: "randomAccessMode rb"
    and k: "0 < k" "k \<le> sampleCapacity rb"
  shows "\<exists>rb'. readSamples rb k
            = Some (k * 2, take (nat k) (rotate (nat (nextOutput rb - buffer rb)) (heap rb)), rb')
          \<and> ring_wf rb' \<and> randomAccessMode rb'
          \<and> buffer rb' = buffer rb \<and> sampleCapacity rb' = sampleCapacity rb
          \<and> endOfLastWrite rb' = endOfLastWrite rb
          \<and> nextOutput rb' = buffer rb + (nextOutput rb - buffer rb + k) mod sampleCapacity rb
          \<and> rotate (nat (nextOutput rb - buffer rb)) (heap rb')
              = replicate (nat k) 0 @ drop (nat k) (rotate (nat (nextOutput rb - buffer rb)) (heap rb))"
proof -
  let ?c = "sampleCapacity rb"
  let ?B = "buffer rb"
  define off where "off = nat (nextOutput rb - ?B)"
  define kn where "kn = nat k"
  have w: "0 < ?B" "0 < ?c" "?c < 2 ^ 31" "int (length (heap rb)) = ?c"
    "?B \<le> nextOutput rb" "nextOutput rb < ?B + ?c"
    "?B \<le> endOfLastWrite rb" "endOfLastWrite rb < ?B + ?c"
    using wf by (simp_all add: ring_wf_def)
  have nx: "nextOutput rb = ?B + int off" using w by (simp add: off_def)
  have kk: "k = int kn" "0 < kn" using k by (simp_all add: kn_def)
  have len: "int (length (heap rb)) = ?c" by (rule w)
  have offc: "int off < ?c" using w nx by simp
  have offl: "off < length (heap rb)" using offc len by linarith
  have e0: "endOfLastWrite rb \<noteq> 0" using w by auto
  have ms: "s64 (u64 (k * sizeof_int16)) = k * 2"
    using k w by (intro byte_count_id) auto
  have cnt: "s32 (u64 (k * 2) div sizeof_int16) = k"
    using k w by (simp add: sample_count_id s32_id)
  have sh: "\<And>r :: AudioRingBuffer. buffer r = ?B \<Longrightarrow> sampleCapacity r = ?c
      \<Longrightarrow> shiftedPositionAccomodatingWrap r (nextOutput rb) k
          = ?B + (nextOutput rb - ?B + k) mod ?c"
  proof -
    fix r :: AudioRingBuffer assume r: "buffer r = ?B" "sampleCapacity r = ?c"
    have "shiftedPositionAccomodatingWrap r (nextOutput rb) k
        = shiftedPositionAccomodatingWrap rb (nextOutput rb) k"
      by (simp add: shiftedPositionAccomodatingWrap_def r)
    then show "shiftedPositionAccomodatingWrap r (nextOutput rb) k
          = ?B + (nextOutput rb - ?B + k) mod ?c"
      using shifted_in_block[OF wf w(5) w(6), of k] k by simp
  qed
  have mb: "0 \<le> (nextOutput rb - ?B + k) mod ?c" "(nextOutput rb - ?B + k) mod ?c < ?c"
    using w by simp_all
  show ?thesis
  proof (cases "nextOutput rb + k > ?B + ?c")
    case True
    define te where "te = nat (?B + ?c - nextOutput rb)"
    define rest where "rest = nat (k - (?B + ?c - nextOutput rb))"
    have te: "?B + ?c - nextOutput rb = int te" using w by (simp add: te_def)
    have rest: "k - (?B + ?c - nextOutput rb) = int rest" using True by (simp add: rest_def)
    have rest': "k - int te = int rest" using rest te by simp
    have rel: "length (heap rb) = off + te" "kn = te + rest" "rest \<le> off"
      using te rest nx kk k len by linarith+
    define rb1 where "rb1 = rb\<lparr>heap := take off (heap rb) @ replicate te 0\<rparr>"
    define rb2 where "rb2 = rb1\<lparr>heap := replicate rest 0 @ drop rest (heap rb1)\<rparr>"
    have r1: "block_read rb (nextOutput rb) (int te) = Some (drop off (heap rb))"
      using rel by (simp add: block_read_def in_block_def nx)
    have z1: "block_zero rb (nextOutput rb) (int te) = Some rb1"
      using rel by (simp add: block_zero_def block_write_def in_block_def nx rb1_def)
    have l1: "length (heap rb1) = off + te" "buffer rb1 = ?B" "randomAccessMode rb1"
      using rel ram by (simp_all add: rb1_def)
    have r2: "block_read rb1 ?B (int rest) = Some (take rest (heap rb))"
      using rel by (simp add: block_read_def in_block_def rb1_def)
    have z2: "block_zero rb1 ?B (int rest) = Some rb2"
      using rel by (simp add: block_zero_def block_write_def in_block_def rb2_def l1)
    have out: "drop off (heap rb) @ take rest (heap rb) = take kn (rotate off (heap rb))"
    proof -
      have "off mod length (heap rb) = off" using offl by simp
      then have "rotate off (heap rb) = drop off (heap rb) @ take off (heap rb)"
        by (simp add: rotate_drop_take)
      then show ?thesis using rel by (simp add: min_absorb2)
    qed
    have f2: "buffer rb2 = ?B" "sampleCapacity rb2 = ?c" "nextOutput rb2 = nextOutput rb"
      "endOfLastWrite rb2 = endOfLastWrite rb" "randomAccessMode rb2"
      "length (heap rb2) = off + te"
      using rel ram by (simp_all add: rb2_def rb1_def)
    have h2: "heap rb2 = replicate rest 0 @ drop rest (take off (heap rb)) @ replicate te 0"
      using rel by (simp add: rb2_def rb1_def)
    have rot: "rotate off (heap rb2) = replicate kn 0 @ drop kn (rotate off (heap rb))"
    proof -
      have a: "off mod length (heap rb) = off" "off mod length (heap rb2) = off"
        using offl f2 rel by simp_all
      have "rotate off (heap rb2) = drop off (heap rb2) @ take off (heap rb2)"
        using a by (simp add: rotate_drop_take)
      also have "\<dots> = replicate te 0 @ replicate rest 0 @ drop rest (take off (heap rb))"
        using rel by (simp add: h2)
      also have "\<dots> = replicate kn 0 @ drop rest (take off (heap rb))"
        using rel by (simp add: replicate_add)
      also have "drop rest (take off (heap rb)) = drop kn (rotate off (heap rb))"
        using a rel by (simp add: rotate_drop_take)
      finally show ?thesis .
    qed
    have res: "readSamples rb k = Some (k * 2, take kn (rotate off (heap rb)),
        rb2\<lparr>nextOutput := ?B + (nextOutput rb - ?B + k) mod ?c\<rparr>)"
      unfolding readSamples_def readData_def Let_def ms
      using True ram e0
      by (simp add: cnt te rest' r1 z1 r2 z2 l1 out f2 sh ms)
    have wf': "ring_wf (rb2\<lparr>nextOutput := ?B + (nextOutput rb - ?B + k) mod ?c\<rparr>)"
      using w mb f2 rel len by (simp add: ring_wf_def)
    show ?thesis
      using res wf' f2 rot by (auto simp add: kn_def off_def)
  next
    case False
    have rel: "off + kn \<le> length (heap rb)"
      using False nx kk len by linarith
    define rb1 where "rb1 = rb\<lparr>heap := take off (heap rb) @ replicate kn 0
                                    @ drop (off + kn) (heap rb)\<rparr>"
    have r1: "block_read rb (nextOutput rb) (int kn) = Some (take kn (drop off (heap rb)))"
      using rel by (simp add: block_read_def in_block_def nx)
    have z1: "block_zero rb (nextOutput rb) (int kn) = Some rb1"
      using rel by (simp add: block_zero_def block_write_def in_block_def nx rb1_def)
    have out: "take kn (drop off (heap rb)) = take kn (rotate off (heap rb))"
    proof -
      have "off mod length (heap rb) = off" using offl by simp
      then have "rotate off (heap rb) = drop off (heap rb) @ take off (heap rb)"
        by (simp add: rotate_drop_take)
      then show ?thesis using rel by simp
    qed
    have f1: "buffer rb1 = ?B" "sampleCapacity rb1 = ?c" "nextOutput rb1 = nextOutput rb"
      "endOfLastWrite rb1 = endOfLastWrite rb" "randomAccessMode rb1"
      "length (heap rb1) = length (heap rb)"
      using rel ram by (simp_all add: rb1_def)
    have rot: "rotate off (heap rb1) = replicate kn 0 @ drop kn (rotate off (heap rb))"
    proof -
      have a: "off mod length (heap rb) = off" "off mod length (heap rb1) = off"
        using offl f1 by simp_all
      have "rotate off (heap rb1) = drop off (heap rb1) @ take off (heap rb1)"
        using a by (simp add: rotate_drop_take)
      also have "\<dots> = replicate kn 0 @ drop (off + kn) (heap rb) @ take off (heap rb)"
        using rel by (simp add: rb1_def)
      also have "drop (off + kn) (heap rb) @ take off (heap rb) = drop kn (rotate off (heap rb))"
        using a rel by (simp add: rotate_drop_take add.commute)
      finally show ?thesis .
    qed
    have res: "readSamples rb k = Some (k * 2, take kn (rotate off (heap rb)),
        rb1\<lparr>nextOutput := ?B + (nextOutput rb - ?B + k) mod ?c\<rparr>)"
      unfolding readSamples_def readData_def Let_def ms
      using False ram e0
      by (simp add: cnt kk(1)[symmetric] r1[folded kk(1)] z1[folded kk(1)] out f1 sh ms)
    have wf': "ring_wf (rb1\<lparr>nextOutput := ?B + (nextOutput rb - ?B + k) mod ?c\<rparr>)"
      using w mb f1 len by (simp add: ring_wf_def)
    show ?thesis
      using res wf' f1 rot by (auto simp add: kn_def off_def)
  qed
qed

subsection \<open>Ring buffer: writes\<close>


subsection \<open>Ring buffer: overflow reset\<close>




lemmas ring_eval_defs =
  writeSamples_def writeData_def readSamples_def readData_def Let_def
  u64_def s64_def s32_def u32_def sizeof_int16_def
  shiftedPositionAccomodatingWrap_def data_read_def block_read_def block_write_def
  block_zero_def in_block_def samplesAvailable_def


text \<open>
  The two buffers of the next theorem arise from a fresh buffer that the mixer has marked as
  started: by writing seven samples, reading five and writing five, and by writing and
  reading three.
\<close>

lemma lapped_ring_reachable:
  "run_ops [Write [0, 0, 0, 0, 0, 0, 0], Read 5, Write [0, 0, 0, 0, 0]]
     (fresh_ring\<lparr>hasStarted := True\<rparr>, 0, 0) = Some (lapped_ring, 12, 5)"
  by (simp add: ring_eval_defs fresh_ring_def lapped_ring_def AudioRingBuffer_new_def
      RING_BUFFER_LENGTH_FRAMES_def)

lemma level_ring_reachable:
  "run_ops [Write [0, 0, 0], Read 3] (fresh_ring\<lparr>hasStarted := True\<rparr>, 0, 0)
     = Some (level_ring, 3, 3)"
  by (simp add: ring_eval_defs fresh_ring_def level_ring_def AudioRingBuffer_new_def
      RING_BUFFER_LENGTH_FRAMES_def)


subsection \<open>Ring buffer: interleaved writes and reads\<close>








lemma AudioRingBuffer_new_wf:
  assumes "0 < frameSamples" "frameSamples * RING_BUFFER_LENGTH_FRAMES < 2 ^ 31" "0 < addr"
    and "randomAccess \<or> int (length garbage) = frameSamples * RING_BUFFER_LENGTH_FRAMES"
  defines "rb \<equiv> AudioRingBuffer_new frameSamples randomAccess addr garbage"
  shows "ring_wf rb" "randomAccessMode rb = randomAccess"
    "nextOutput rb = buffer rb" "endOfLastWrite rb = buffer rb"
    "sampleCapacity rb = frameSamples * RING_BUFFER_LENGTH_FRAMES"
    "randomAccess \<Longrightarrow> heap rb = replicate (nat (sampleCapacity rb)) 0"
    "samplesAvailable rb = 0"
proof -
  have c: "0 < frameSamples * RING_BUFFER_LENGTH_FRAMES"
    using assms(1) by (simp add: RING_BUFFER_LENGTH_FRAMES_def)
  show wf: "ring_wf rb"
    using assms(1-4) c by (auto simp add: rb_def AudioRingBuffer_new_def ring_wf_def Let_def)
  show "randomAccessMode rb = randomAccess" "nextOutput rb = buffer rb"
    "endOfLastWrite rb = buffer rb" "sampleCapacity rb = frameSamples * RING_BUFFER_LENGTH_FRAMES"
    using assms(1) by (simp_all add: rb_def AudioRingBuffer_new_def Let_def)
  show "randomAccess \<Longrightarrow> heap rb = replicate (nat (sampleCapacity rb)) 0"
    using assms(1) by (simp add: rb_def AudioRingBuffer_new_def Let_def)
  show "samplesAvailable rb = 0"
    using samplesAvailable_wf(1)[OF wf] assms(1)
    by (simp add: rb_def AudioRingBuffer_new_def Let_def)
qed





subsection \<open>Ring buffer: random access reads\<close>

text \<open>
  Claim C10 (random access reads). In random access mode, for every count \<open>k\<close> with
  \<open>0 < k \<le> capacity\<close>, reading \<open>k\<close> samples succeeds, so that every copy and every zeroing
  stays inside the block; it returns exactly \<open>k\<close> samples, the ring contents from the read
  cursor on with wrap-around, whatever the number of available samples; the positions read
  are zero afterwards and the read cursor has advanced by \<open>k\<close> modulo the capacity. A buffer
  fresh from the constructor has no sample available, and reading \<open>k\<close> samples from it
  returns \<open>k\<close> zeros.
\<close>

theorem random_access_read_returns_request:
  "(ring_wf rb \<and> randomAccessMode rb \<and> 0 < k \<and> k \<le> sampleCapacity rb \<longrightarrow>
      (\<exists>out rb'. readSamples rb k = Some (k * sizeof_int16, out, rb')
         \<and> int (length out) = k
         \<and> out = take (nat k) (rotate (nat (nextOutput rb - buffer rb)) (heap rb))
         \<and> rotate (nat (nextOutput rb - buffer rb)) (heap rb')
             = replicate (nat k) 0 @ drop (nat k) (rotate (nat (nextOutput rb - buffer rb)) (heap rb))
         \<and> nextOutput rb' = buffer rb + (nextOutput rb - buffer rb + k) mod sampleCapacity rb
         \<and> ring_wf rb' \<and> randomAccessMode rb'))
   \<and> (0 < frameSamples \<and> frameSamples * RING_BUFFER_LENGTH_FRAMES < 2 ^ 31 \<and> 0 < addr
        \<and> 0 < k \<and> k \<le> frameSamples * RING_BUFFER_LENGTH_FRAMES \<longrightarrow>
      samplesAvailable (AudioRingBuffer_new frameSamples True addr garbage) = 0
      \<and> (\<exists>rb'. readSamples (AudioRingBuffer_new frameSamples True addr garbage) k
            = Some (k * sizeof_int16, replicate (nat k) 0, rb')))"
proof (intro conjI impI)
  assume a: "ring_wf rb \<and> randomAccessMode rb \<and> 0 < k \<and> k \<le> sampleCapacity rb"
  then have wf: "ring_wf rb" and ram: "randomAccessMode rb" and k: "0 < k" "k \<le> sampleCapacity rb"
    by simp_all
  have len: "int (length (heap rb)) = sampleCapacity rb" using wf by (simp add: ring_wf_def)
  from readSamples_random_access[OF wf ram k]
  obtain rb' where r: "readSamples rb k
            = Some (k * 2, take (nat k) (rotate (nat (nextOutput rb - buffer rb)) (heap rb)), rb')"
    and i: "ring_wf rb'" "randomAccessMode rb'"
      "nextOutput rb' = buffer rb + (nextOutput rb - buffer rb + k) mod sampleCapacity rb"
      "rotate (nat (nextOutput rb - buffer rb)) (heap rb')
              = replicate (nat k) 0 @ drop (nat k) (rotate (nat (nextOutput rb - buffer rb)) (heap rb))"
    by blast
  have l: "int (length (take (nat k) (rotate (nat (nextOutput rb - buffer rb)) (heap rb)))) = k"
    using k len by simp
  show "\<exists>out rb'. readSamples rb k = Some (k * sizeof_int16, out, rb')
         \<and> int (length out) = k
         \<and> out = take (nat k) (rotate (nat (nextOutput rb - buffer rb)) (heap rb))
         \<and> rotate (nat (nextOutput rb - buffer rb)) (heap rb')
             = replicate (nat k) 0 @ drop (nat k) (rotate (nat (nextOutput rb - buffer rb)) (heap rb))
         \<and> nextOutput rb' = buffer rb + (nextOutput rb - buffer rb + k) mod sampleCapacity rb
         \<and> ring_wf rb' \<and> randomAccessMode rb'"
    using r i l by (simp add: sizeof_int16_def)
next
  assume a: "0 < frameSamples \<and> frameSamples * RING_BUFFER_LENGTH_FRAMES < 2 ^ 31 \<and> 0 < addr
        \<and> 0 < k \<and> k \<le> frameSamples * RING_BUFFER_LENGTH_FRAMES"
  define rb0 where "rb0 = AudioRingBuffer_new frameSamples True addr garbage"
  have t: "True \<or> int (length garbage) = frameSamples * RING_BUFFER_LENGTH_FRAMES" by simp
  from a have a1: "0 < frameSamples" "frameSamples * RING_BUFFER_LENGTH_FRAMES < 2 ^ 31" "0 < addr"
    by simp_all
  note fr = AudioRingBuffer_new_wf[OF a1 t, folded rb0_def]
  show "samplesAvailable (AudioRingBuffer_new frameSamples True addr garbage) = 0"
    using fr(7) by (simp add: rb0_def)
  have ram: "randomAccessMode rb0" using fr(2) by simp
  have k: "0 < k" "k \<le> sampleCapacity rb0" using a fr(5) by simp_all
  have h: "heap rb0 = replicate (nat (sampleCapacity rb0)) 0" using fr(6) by simp
  from readSamples_random_access[OF fr(1) ram k]
  obtain rb' where r: "readSamples rb0 k
            = Some (k * 2, take (nat k) (rotate (nat (nextOutput rb0 - buffer rb0)) (heap rb0)), rb')"
    by blast
  have "take (nat k) (rotate (nat (nextOutput rb0 - buffer rb0)) (heap rb0)) = replicate (nat k) 0"
    using k by (simp add: h fr(3) min_absorb2 nat_le_iff)
  then show "\<exists>rb'. readSamples (AudioRingBuffer_new frameSamples True addr garbage) k
            = Some (k * sizeof_int16, replicate (nat k) 0, rb')"
    using r by (simp add: rb0_def sizeof_int16_def)
qed

text \<open>
  A fresh buffer of capacity ten read for four samples, and a read of seven samples that
  wraps around the end of the ring.
\<close>

theorem random_access_read_returns_request_witness:
  "samplesAvailable (AudioRingBuffer_new 1 True 4096 []) = 0
   \<and> (\<exists>rb'. readSamples (AudioRingBuffer_new 1 True 4096 []) 4 = Some (8, [0, 0, 0, 0], rb'))
   \<and> (\<exists>out rb'. readSamples (lapped_ring\<lparr>randomAccessMode := True\<rparr>) 7 = Some (14, out, rb')
        \<and> int (length out) = 7 \<and> nextOutput rb' = 4098)"
proof -
  let ?rb = "lapped_ring\<lparr>randomAccessMode := True\<rparr>"
  have w: "ring_wf ?rb \<and> randomAccessMode ?rb \<and> 0 < (7::int) \<and> 7 \<le> sampleCapacity ?rb"
    by (simp add: ring_wf_def lapped_ring_def)
  have c: "(0::int) < 1 \<and> 1 * RING_BUFFER_LENGTH_FRAMES < 2 ^ 31 \<and> (0::int) < 4096
        \<and> (0::int) < 4 \<and> 4 \<le> 1 * RING_BUFFER_LENGTH_FRAMES"
    by (simp add: RING_BUFFER_LENGTH_FRAMES_def)
  have p: "buffer ?rb + (nextOutput ?rb - buffer ?rb + 7) mod sampleCapacity ?rb = 4098"
    by (simp add: lapped_ring_def)
  have r4: "replicate (nat 4) (0::sample) = [0, 0, 0, 0]" by (simp add: numeral_eq_Suc)
  from random_access_read_returns_request[where rb = ?rb and k = 7 and frameSamples = 1 and addr = 4096 and garbage = "[]"] w
  have first: "\<exists>out rb'. readSamples ?rb 7 = Some (14, out, rb')
        \<and> int (length out) = 7 \<and> nextOutput rb' = 4098"
    unfolding p by (auto simp add: sizeof_int16_def)
  from random_access_read_returns_request[where rb = ?rb and k = 4 and frameSamples = 1 and addr = 4096 and garbage = "[]"] c
  have second: "samplesAvailable (AudioRingBuffer_new 1 True 4096 []) = 0
      \<and> (\<exists>rb'. readSamples (AudioRingBuffer_new 1 True 4096 []) 4 = Some (8, [0, 0, 0, 0], rb'))"
    unfolding r4 by (simp add: sizeof_int16_def)
  from first second show ?thesis by blast
qed

subsection \<open>The mixer: look-back window and silent frames\<close>

lemma for_each_invariant:
  assumes "P st"
    and "\<And>i s. i \<in> set xs \<Longrightarrow> P s \<Longrightarrow> \<exists>s'. body i s = Some s' \<and> P s'"
  shows "\<exists>st'. for_each body xs st = Some st' \<and> P st'"
  using assms
proof (induction xs arbitrary: st)
  case Nil
  then show ?case by simp
next
  case (Cons i xs)
  from Cons.prems(2)[of i st] Cons.prems(1)
  obtain s' where s: "body i st = Some s'" "P s'" by auto
  have "\<exists>st'. for_each body xs s' = Some st' \<and> P st'"
    using Cons.prems(2) s(2) by (intro Cons.IH) auto
  then show ?case using s(1) by simp
qed

lemma for_each_unchanged:
  "(\<And>i. i \<in> set xs \<Longrightarrow> body i st = Some st) \<Longrightarrow> for_each body xs st = Some st"
  by (induction xs) simp_all

lemma advanceNextOutput_getBuffer: "getBuffer (advanceNextOutput b) = getBuffer b"
  by (simp add: advanceNextOutput_def Let_def)

lemma mixerReachable_positions:
  "mixerReachable b \<Longrightarrow>
     \<exists>k. 0 \<le> k \<and> k < RING_BUFFER_FRAMES
        \<and> getNextOutput b = getBuffer b + BUFFER_LENGTH_SAMPLES_PER_CHANNEL * k"
proof (induction rule: mixerReachable.induct)
  case (atOrigin b)
  then show ?case by (intro exI[of _ 0]) (simp add: RING_BUFFER_FRAMES_def)
next
  case (advanced b)
  then obtain k where k: "0 \<le> k" "k < RING_BUFFER_FRAMES"
    "getNextOutput b = getBuffer b + BUFFER_LENGTH_SAMPLES_PER_CHANNEL * k" by blast
  show ?case
  proof (cases "shouldBeAddedToMix b")
    case False
    then show ?thesis using k by (intro exI[of _ k]) (simp add: advanceNextOutput_def)
  next
    case True
    show ?thesis
    proof (cases "k + 1 < RING_BUFFER_FRAMES")
      case True
      then show ?thesis using k \<open>shouldBeAddedToMix b\<close>
        by (intro exI[of _ "k + 1"])
          (simp add: advanceNextOutput_def Let_def RING_BUFFER_SAMPLES_eq
            BUFFER_LENGTH_SAMPLES_PER_CHANNEL_eq RING_BUFFER_FRAMES_def)
    next
      case False
      then have "k = 9" using k by (simp add: RING_BUFFER_FRAMES_def)
      then show ?thesis using k \<open>shouldBeAddedToMix b\<close>
        by (intro exI[of _ 0])
          (simp add: advanceNextOutput_def Let_def RING_BUFFER_SAMPLES_eq
            BUFFER_LENGTH_SAMPLES_PER_CHANNEL_eq RING_BUFFER_FRAMES_def)
    qed
  qed
next
  case (otherMembers b b')
  then show ?case by simp
qed

lemma plateau_at_Some:
  "0 \<le> i \<Longrightarrow> i < int (length cs) \<Longrightarrow>
     \<exists>cs'. plateau_at cs i v = Some cs' \<and> length cs' = length cs"
  by (simp add: plateau_at_def)

text \<open>Where the look-back pointer and the window of the current frame lie.\<close>

lemma look_back_positions:
  assumes r: "mixerReachable b" and d: "0 \<le> d" "d \<le> 20"
  shows "0 \<le> s \<Longrightarrow> s < d \<Longrightarrow>
           getBuffer b \<le> delaySamplePointer b d + s
           \<and> delaySamplePointer b d + s < getBuffer b + RING_BUFFER_SAMPLES
           \<and> delaySamplePointer b d + s
               = getBuffer b + (getNextOutput b - getBuffer b - d + s) mod RING_BUFFER_SAMPLES"
    and "0 \<le> s \<Longrightarrow> s < BUFFER_LENGTH_SAMPLES_PER_CHANNEL \<Longrightarrow>
           getBuffer b \<le> getNextOutput b + s \<and> getNextOutput b + s < getBuffer b + RING_BUFFER_SAMPLES"
proof -
  from mixerReachable_positions[OF r]
  obtain k where k: "0 \<le> k" "k < 10" "getNextOutput b = getBuffer b + 256 * k"
    by (auto simp add: RING_BUFFER_FRAMES_def BUFFER_LENGTH_SAMPLES_PER_CHANNEL_eq)
  show "0 \<le> s \<Longrightarrow> s < BUFFER_LENGTH_SAMPLES_PER_CHANNEL \<Longrightarrow>
           getBuffer b \<le> getNextOutput b + s \<and> getNextOutput b + s < getBuffer b + RING_BUFFER_SAMPLES"
    using k by (simp add: RING_BUFFER_SAMPLES_eq BUFFER_LENGTH_SAMPLES_PER_CHANNEL_eq)
  assume s: "0 \<le> s" "s < d"
  show "getBuffer b \<le> delaySamplePointer b d + s
           \<and> delaySamplePointer b d + s < getBuffer b + RING_BUFFER_SAMPLES
           \<and> delaySamplePointer b d + s
               = getBuffer b + (getNextOutput b - getBuffer b - d + s) mod RING_BUFFER_SAMPLES"
  proof (cases "k = 0")
    case True
    have "(- d + s) mod 2560 = (2560 - d + s) mod 2560"
      by (metis add.commute diff_add_eq mod_add_self1 uminus_add_conv_diff)
    also have "\<dots> = 2560 - d + s" using s d by (intro mod_pos_pos_trivial) auto
    finally show ?thesis using True k s d
      by (simp add: delaySamplePointer_def RING_BUFFER_SAMPLES_eq)
  next
    case False
    then have k1: "1 \<le> k" using k by simp
    have "(256 * k - d + s) mod 2560 = 256 * k - d + s"
      using s d k k1 by (intro mod_pos_pos_trivial) auto
    then show ?thesis using False k k1 s d
      by (simp add: delaySamplePointer_def RING_BUFFER_SAMPLES_eq)
  qed
qed

lemma mixSample_Some:
  assumes r: "mixerReachable b" and len: "int (length (ringSamples b)) = RING_BUFFER_SAMPLES"
    and d: "0 \<le> numSamplesDelay sp" "numSamplesDelay sp \<le> 20"
    and s: "0 \<le> s" "s < BUFFER_LENGTH_SAMPLES_PER_CHANNEL"
    and cs: "int (length cs) = BUFFER_LENGTH_SAMPLES_PER_CHANNEL * 2"
  shows "\<exists>cs'. mixSample sp b s cs = Some cs' \<and> int (length cs') = BUFFER_LENGTH_SAMPLES_PER_CHANNEL * 2"
proof -
  let ?d = "numSamplesDelay sp"
  have ch: "0 \<le> delayedChannel sp" "delayedChannel sp \<le> 256" "0 \<le> goodChannel sp" "goodChannel sp \<le> 256"
    by (simp_all add: delayedChannel_def goodChannel_def BUFFER_LENGTH_SAMPLES_PER_CHANNEL_eq)
  have s': "s < 256" using s by (simp add: BUFFER_LENGTH_SAMPLES_PER_CHANNEL_eq)
  have csl: "int (length cs) = 512" using cs by (simp add: BUFFER_LENGTH_SAMPLES_PER_CHANNEL_eq)
  have "\<exists>cs1. (if s < ?d then
                 ring_at b (delaySamplePointer b ?d + s) \<bind> (\<lambda>v.
                 plateau_at cs (delayedChannel sp + s)
                   (float_to_int16 (real_of_int (float_to_int (real_of_int (sint v) * attenuationCoefficient sp))
                      * weakChannelAmplitudeRatio sp)))
               else Some cs) = Some cs1 \<and> int (length cs1) = 512"
  proof (cases "s < ?d")
    case True
    from look_back_positions(1)[OF r d s(1) True] len
    obtain v where v: "ring_at b (delaySamplePointer b ?d + s) = Some v"
      by (auto simp add: ring_at_def)
    from plateau_at_Some[of "delayedChannel sp + s" cs] ch s s' csl
    show ?thesis using True v by (auto simp add: plateau_at_def)
  next
    case False
    then show ?thesis using csl by simp
  qed
  then obtain cs1 where c1: "(if s < ?d then
                 ring_at b (delaySamplePointer b ?d + s) \<bind> (\<lambda>v.
                 plateau_at cs (delayedChannel sp + s)
                   (float_to_int16 (real_of_int (float_to_int (real_of_int (sint v) * attenuationCoefficient sp))
                      * weakChannelAmplitudeRatio sp)))
               else Some cs) = Some cs1" and l1: "int (length cs1) = 512" by blast
  from look_back_positions(2)[OF r d s] len
  obtain v where v: "ring_at b (getNextOutput b + s) = Some v"
    by (auto simp add: ring_at_def)
  define cur where "cur = float_to_int16 (real_of_int (sint v) * attenuationCoefficient sp)"
  obtain cs2 where c2: "plateau_at cs1 (goodChannel sp + s) cur = Some cs2" and l2: "int (length cs2) = 512"
    using ch s s' l1 by (auto simp add: plateau_at_def)
  have "\<exists>cs3. (if s + ?d < BUFFER_LENGTH_SAMPLES_PER_CHANNEL
        then plateau_at cs2 (delayedChannel sp + s + ?d)
               (float_to_int16 (real_of_int (sint cur) * weakChannelAmplitudeRatio sp))
        else Some cs2) = Some cs3 \<and> int (length cs3) = 512"
    using ch s d l2 by (auto simp add: plateau_at_def BUFFER_LENGTH_SAMPLES_PER_CHANNEL_eq)
  then obtain cs3 where c3: "(if s + ?d < BUFFER_LENGTH_SAMPLES_PER_CHANNEL
        then plateau_at cs2 (delayedChannel sp + s + ?d)
               (float_to_int16 (real_of_int (sint cur) * weakChannelAmplitudeRatio sp))
        else Some cs2) = Some cs3" and l3: "int (length cs3) = 512" by blast
  have "mixSample sp b s cs = Some cs3"
    unfolding mixSample_def Let_def c1[unfolded Let_def]
    using v c2[unfolded cur_def] c3[unfolded cur_def] by simp
  then show ?thesis using l3 by (simp add: BUFFER_LENGTH_SAMPLES_PER_CHANNEL_eq)
qed


lemma mixSource_Some:
  assumes "mixerReachable b" and "int (length (ringSamples b)) = RING_BUFFER_SAMPLES"
    and "0 \<le> numSamplesDelay sp" "numSamplesDelay sp \<le> 20"
    and "int (length cs) = BUFFER_LENGTH_SAMPLES_PER_CHANNEL * 2"
  shows "\<exists>cs'. mixSource sp b cs = Some cs' \<and> int (length cs') = BUFFER_LENGTH_SAMPLES_PER_CHANNEL * 2"
  unfolding mixSource_def
proof (rule for_each_invariant[where P = "\<lambda>cs :: sample list. int (length cs) = BUFFER_LENGTH_SAMPLES_PER_CHANNEL * 2"])
  show "int (length cs) = BUFFER_LENGTH_SAMPLES_PER_CHANNEL * 2" by (rule assms(5))
next
  fix i and c :: "sample list"
  assume i: "i \<in> set (map int [0 ..< nat BUFFER_LENGTH_SAMPLES_PER_CHANNEL])"
    and c: "int (length c) = BUFFER_LENGTH_SAMPLES_PER_CHANNEL * 2"
  have "0 \<le> i" "i < BUFFER_LENGTH_SAMPLES_PER_CHANNEL" using i by auto
  then show "\<exists>s'. mixSample sp b i c = Some s' \<and> int (length s') = BUFFER_LENGTH_SAMPLES_PER_CHANNEL * 2"
    using mixSample_Some[OF assms(1-4) _ _ c] by blast
qed

text \<open>
  Claim C4 (the look-back pointer stays inside the ring). For every buffer the mixer loop can
  reach, with a ring of \<open>RING_BUFFER_SAMPLES\<close> samples, and every inter-aural delay \<open>d\<close> in
  \<open>[0, 20]\<close>: each pre-roll read \<open>delaySamplePointer[s]\<close>, \<open>s < d\<close>, is inside the ring, at the
  read cursor minus \<open>d\<close> plus \<open>s\<close> modulo the capacity (so it wraps into the tail of the ring
  when the subtraction precedes the origin); each read of the current frame is inside the
  ring; and mixing the frame of that source completes without an access outside a block.
\<close>

theorem look_back_inside_ring:
  assumes "mixerReachable b" and "int (length (ringSamples b)) = RING_BUFFER_SAMPLES"
    and "0 \<le> numSamplesDelay sp" and "numSamplesDelay sp \<le> 20"
    and "int (length clientSamples) = BUFFER_LENGTH_SAMPLES_PER_CHANNEL * 2"
  shows "(\<forall>s. 0 \<le> s \<and> s < numSamplesDelay sp \<longrightarrow>
            ring_at b (delaySamplePointer b (numSamplesDelay sp) + s) \<noteq> None
            \<and> delaySamplePointer b (numSamplesDelay sp) + s
                = getBuffer b
                  + (getNextOutput b - getBuffer b - numSamplesDelay sp + s) mod RING_BUFFER_SAMPLES)
       \<and> (\<forall>s. 0 \<le> s \<and> s < BUFFER_LENGTH_SAMPLES_PER_CHANNEL \<longrightarrow>
            ring_at b (getNextOutput b + s) \<noteq> None)
       \<and> mixSource sp b clientSamples \<noteq> None"
proof (intro conjI allI impI)
  fix s assume s: "0 \<le> s \<and> s < numSamplesDelay sp"
  from look_back_positions(1)[OF assms(1,3,4), of s] s
  have p: "getBuffer b \<le> delaySamplePointer b (numSamplesDelay sp) + s"
    "delaySamplePointer b (numSamplesDelay sp) + s < getBuffer b + RING_BUFFER_SAMPLES"
    "delaySamplePointer b (numSamplesDelay sp) + s
       = getBuffer b + (getNextOutput b - getBuffer b - numSamplesDelay sp + s) mod RING_BUFFER_SAMPLES"
    by simp_all
  show "ring_at b (delaySamplePointer b (numSamplesDelay sp) + s) \<noteq> None"
    using p(1,2) assms(2) by (simp add: ring_at_def)
  show "delaySamplePointer b (numSamplesDelay sp) + s
       = getBuffer b + (getNextOutput b - getBuffer b - numSamplesDelay sp + s) mod RING_BUFFER_SAMPLES"
    by (rule p(3))
next
  fix s assume s: "0 \<le> s \<and> s < BUFFER_LENGTH_SAMPLES_PER_CHANNEL"
  from look_back_positions(2)[OF assms(1,3,4), of s] s
  show "ring_at b (getNextOutput b + s) \<noteq> None"
    using assms(2) by (simp add: ring_at_def)
next
  show "mixSource sp b clientSamples \<noteq> None"
    using mixSource_Some[OF assms] by auto
qed

lemma one_frame_buffer_more_fields:
  "getBuffer one_frame_buffer = 4096" "length (ringSamples one_frame_buffer) = 2560"
  "\<not> shouldLoopbackForAgent one_frame_buffer" "\<not> shouldBeAddedToMix one_frame_buffer"
  by (simp_all add: one_frame_buffer_def)

text \<open>A source with its read cursor at the origin and a delay of 20 samples.\<close>

theorem look_back_inside_ring_witness:
  "mixSource \<lparr>bearingRelativeAngleToSource = 1, attenuationCoefficient = 1,
              numSamplesDelay = 20, weakChannelAmplitudeRatio = 1 / 2\<rparr>
     one_frame_buffer (replicate 512 0) \<noteq> None
   \<and> delaySamplePointer one_frame_buffer 20 + 0 = 4096 + 2540
   \<and> ring_at one_frame_buffer (4096 + 2540) \<noteq> None"
proof -
  let ?sp = "\<lparr>bearingRelativeAngleToSource = 1, attenuationCoefficient = 1,
              numSamplesDelay = 20, weakChannelAmplitudeRatio = 1 / 2\<rparr>"
  have r: "mixerReachable one_frame_buffer"
    by (rule mixerReachable.atOrigin) (simp add: one_frame_buffer_fields one_frame_buffer_more_fields)
  have l: "int (length (ringSamples one_frame_buffer)) = RING_BUFFER_SAMPLES"
    by (simp add: one_frame_buffer_more_fields RING_BUFFER_SAMPLES_eq)
  have d: "0 \<le> numSamplesDelay ?sp" "numSamplesDelay ?sp \<le> 20" by simp_all
  have c: "int (length (replicate 512 (0::sample))) = BUFFER_LENGTH_SAMPLES_PER_CHANNEL * 2"
    by (simp add: BUFFER_LENGTH_SAMPLES_PER_CHANNEL_eq)
  have p: "delaySamplePointer one_frame_buffer 20 = 4096 + 2540"
    by (simp add: delaySamplePointer_def one_frame_buffer_fields one_frame_buffer_more_fields
        RING_BUFFER_SAMPLES_eq)
  note t = look_back_inside_ring[OF r l d c]
  from t have m: "mixSource ?sp one_frame_buffer (replicate 512 0) \<noteq> None" by blast
  from t have "0 \<le> (0::int) \<and> (0::int) < numSamplesDelay ?sp \<longrightarrow>
       ring_at one_frame_buffer (delaySamplePointer one_frame_buffer (numSamplesDelay ?sp) + 0) \<noteq> None"
    by blast
  then have "ring_at one_frame_buffer (delaySamplePointer one_frame_buffer 20 + 0) \<noteq> None"
    by simp
  then show ?thesis using m p by simp
qed


text \<open>
  Claim C9 (silence without eligible sources). For every listener of kind avatar with
  \<open>loopback = false\<close>, if no other agent has \<open>should_mix = true\<close>, the frame emitted for the
  listener is 512 zero samples, whatever its own buffer holds and whether or not its own
  \<open>should_mix\<close> flag is set.
\<close>

theorem silence_without_other_sources:
  assumes "agent < length agentList"
    and "getType (agentList ! agent) = AGENT_TYPE_AVATAR"
    and "\<not> shouldLoopbackForAgent (getLinkedData (agentList ! agent))"
    and "\<forall>other < length agentList.
           other \<noteq> agent \<longrightarrow> \<not> shouldBeAddedToMix (getLinkedData (agentList ! other))"
  shows "mixForAgent agentList agent = Some (replicate 512 0)
       \<and> (agent, Some (replicate 512 0)) \<in> set (mixFrames agentList)"
proof -
  have step: "\<And>other cs. other \<in> set [0 ..< length agentList]
      \<Longrightarrow> mixOtherAgent agentList agent other cs = Some cs"
    using assms(3,4) by (auto simp add: mixOtherAgent_def Let_def)
  have z: "replicate (nat (BUFFER_LENGTH_SAMPLES_PER_CHANNEL * 2)) (0::sample) = replicate 512 0"
    by (simp add: BUFFER_LENGTH_SAMPLES_PER_CHANNEL_eq)
  have m: "mixForAgent agentList agent = Some (replicate 512 0)"
    unfolding mixForAgent_def z by (rule for_each_unchanged) (rule step)
  have "agent \<in> set (filter (\<lambda>a. getType (agentList ! a) = AGENT_TYPE_AVATAR) [0 ..< length agentList])"
    using assms(1,2) by simp
  then have "(agent, mixForAgent agentList agent) \<in> set (mixFrames agentList)"
    unfolding mixFrames_def by (simp add: image_iff)
  then show ?thesis using m by simp
qed

text \<open>A listener whose own buffer is marked for the mix, and one silent neighbour.\<close>

theorem silence_without_other_sources_witness:
  "mixForAgent [avatar_with (one_frame_buffer\<lparr>shouldBeAddedToMix := True\<rparr>),
                avatar_with one_frame_buffer] 0 = Some (replicate 512 0)"
proof -
  let ?l = "[avatar_with (one_frame_buffer\<lparr>shouldBeAddedToMix := True\<rparr>), avatar_with one_frame_buffer]"
  have a: "0 < length ?l" by simp
  have t: "getType (?l ! 0) = AGENT_TYPE_AVATAR" by (simp add: avatar_with_def)
  have lb: "\<not> shouldLoopbackForAgent (getLinkedData (?l ! 0))"
    by (simp add: getLinkedData_avatar_with one_frame_buffer_more_fields)
  have o: "\<forall>other < length ?l. other \<noteq> 0 \<longrightarrow> \<not> shouldBeAddedToMix (getLinkedData (?l ! other))"
    by (simp add: less_Suc_eq getLinkedData_avatar_with one_frame_buffer_more_fields)
  from silence_without_other_sources[OF a t lb o] show ?thesis by blast
qed

subsection \<open>The mixer: inter-aural delay\<close>

lemma sinRatio_bounds: "0 \<le> sinRatio a" "sinRatio a \<le> 1"
  by (simp_all add: sinRatio_def abs_sin_le_one)

lemma float_to_int_nonneg: "0 \<le> x \<Longrightarrow> float_to_int x = \<lfloor>x\<rfloor>"
  by (simp add: float_to_int_def)



subsection \<open>The mixer: distance attenuation\<close>

lemma DISTANCE_RATIO_eq: "DISTANCE_RATIO = 10"
  by (simp add: DISTANCE_RATIO_def)

lemma distanceCoefficient_pos:
  "0 < d \<Longrightarrow> distanceCoefficient d = min 1 (0.5 powr (log 3 (10 * d) - 1))"
  by (simp add: distanceCoefficient_def DISTANCE_RATIO_eq log_def)

text \<open>
  Claim C8 (distance attenuation). The coefficient \<open>min(1, 0.5 ^ (log\<^sub>3 (R * d) - 1))\<close> with
  \<open>R = 10\<close> is non-increasing in the distance \<open>d\<close> for \<open>d > 0\<close>, and it is 1 at \<open>d = 0.1\<close>.
\<close>

theorem distanceCoefficient_antimono:
  "(0 < d1 \<and> d1 \<le> d2 \<longrightarrow> distanceCoefficient d2 \<le> distanceCoefficient d1)
   \<and> (0 < d \<longrightarrow> distanceCoefficient d = min 1 (0.5 powr (log 3 (DISTANCE_RATIO * d) - 1)))
   \<and> DISTANCE_RATIO = 10
   \<and> distanceCoefficient (1 / 10) = 1"
proof (intro conjI impI)
  assume a: "0 < d1 \<and> d1 \<le> d2"
  then have p: "0 < d1" "0 < d2" "d1 \<le> d2" by simp_all
  have "log 3 (10 * d1) \<le> log 3 (10 * d2)" using p by simp
  then have "log 3 (10 * d2) - 1 \<ge> log 3 (10 * d1) - 1" by simp
  then have "(0.5::real) powr (log 3 (10 * d2) - 1) \<le> 0.5 powr (log 3 (10 * d1) - 1)"
    by (intro powr_mono') simp_all
  then show "distanceCoefficient d2 \<le> distanceCoefficient d1"
    using p by (simp add: distanceCoefficient_pos min_def)
next
  assume "0 < d"
  then show "distanceCoefficient d = min 1 (0.5 powr (log 3 (DISTANCE_RATIO * d) - 1))"
    by (simp add: distanceCoefficient_pos DISTANCE_RATIO_eq)
next
  show "DISTANCE_RATIO = 10" by (rule DISTANCE_RATIO_eq)
next
  have "(0.5::real) powr (log 3 (10 * (1 / 10)) - 1) = 2"
    by (simp add: powr_minus inverse_eq_divide)
  then show "distanceCoefficient (1 / 10) = 1"
    using distanceCoefficient_pos[of "1 / 10"] by simp
qed

text \<open>From distance 0.1 to distance 0.9 the coefficient falls from 1 to one half.\<close>

theorem distanceCoefficient_antimono_witness:
  "distanceCoefficient (9 / 10) \<le> distanceCoefficient (1 / 10)
   \<and> distanceCoefficient (9 / 10) = 1 / 2"
proof -
  have l: "log 3 (9::real) = 2"
  proof -
    have "log 3 (9::real) = log 3 (3 ^ 2)" by simp
    also have "\<dots> = 2" by (simp only: log_pow_cancel)
    finally show ?thesis .
  qed
  have h: "(0::real) < 1 / 10 \<and> (1 / 10 :: real) \<le> 9 / 10" "(0::real) < 9 / 10" by simp_all
  from distanceCoefficient_antimono[where ?d1.0 = "1 / 10" and ?d2.0 = "9 / 10" and d = "9 / 10"] h
  have "distanceCoefficient (9 / 10) \<le> distanceCoefficient (1 / 10)"
    and "distanceCoefficient (9 / 10) = min 1 (0.5 powr (log 3 (DISTANCE_RATIO * (9 / 10)) - 1))"
    by blast+
  then show ?thesis by (simp add: DISTANCE_RATIO_eq l)
qed

end
